theory Spec2Isabelle
  imports Main "HOL-Library.Word" "HOL-Library.AList" "HOL-Library.Multiset"
begin

section \<open>The commit batcher of extern/storage-sealing/commit\_batch.go\<close>

text \<open>
  A shallow embedding of the Go type \<^verbatim>\<open>CommitBatcher\<close> and its methods.

  \<^item> Go's \<^verbatim>\<open>int64\<close> and \<^verbatim>\<open>uint64\<close> are 64-bit words: \<open>+\<close>, \<open>-\<close> and
    \<open>*\<close> wrap as in Go; a signed value is read with \<open>sint\<close> and compared with
    \<open><s\<close> and \<open>\<le>s\<close>.
  \<^item> A \<^verbatim>\<open>time.Time\<close> is the number of nanoseconds since Go's zero time, an
    unbounded integer (Go's range is far larger than any \<^verbatim>\<open>Duration\<close>); the
    zero time is \<open>0\<close>.
  \<^item> \<^verbatim>\<open>big.Int\<close> is \<open>int\<close>.
  \<^item> A Go map is an association list whose order is the order in which one
    \<^verbatim>\<open>range\<close> loop visits the keys. Go leaves that order open, so every statement
    below is about an arbitrary list.
  \<^item> A Go \<^verbatim>\<open>error\<close> is its message; a function that returns
    \<^verbatim>\<open>(value, error)\<close> and whose value is ignored on error returns a sum, with
    \<open>Inl\<close> the error.
  \<^item> A run-time panic is a value of type \<open>panic\<close>, returned with \<open>Inl\<close>.
\<close>

subsection \<open>Data\<close>

type_synonym SectorNumber = "64 word"
type_synonym ChainEpoch = "64 word"
type_synonym Duration = "64 word"
type_synonym Time = int
type_synonym TokenAmount = int
type_synonym bytes = "8 word list"
type_synonym TipSetToken = bytes
type_synonym Cid = string
type_synonym Address = string
type_synonym Version = nat
type_synonym RegisteredSealProof = int
type_synonym MinerInfo = string
type_synonym SectorPreCommitInfo = string
type_synonym error = string

datatype panic =
    NilMapAssignment
  | NilPointerDereference
  | IndexOutOfRange
  | CloseOfClosedChannel
  | ExplicitPanic error

text \<open>
  The structs below are declared in packages outside this file. Modelled from the spec:
  section 3 (the fields of \<^verbatim>\<open>AggregateInput\<close> and of the batch result) and
  section 4.2 (a sector record has a number, a seal-proof type and pieces, each with an
  optional deal whose schedule has a start epoch). Fields the batcher never reads are left
  out or kept opaque.
\<close>

record AggregateSealVerifyInfo =
  Number :: SectorNumber
  Randomness :: bytes
  InteractiveRandomness :: bytes
  SealedCID :: Cid
  UnsealedCID :: Cid

record AggregateInput =
  spt :: RegisteredSealProof
  info :: AggregateSealVerifyInfo
  proof' :: bytes

record SectorPreCommitOnChainInfo =
  Info :: SectorPreCommitInfo
  PreCommitDeposit :: TokenAmount
  PreCommitEpoch :: ChainEpoch

record DealSchedule =
  StartEpoch :: ChainEpoch
  EndEpoch :: ChainEpoch

record DealInfo =
  DealID :: nat
  DealSchedule :: DealSchedule

text \<open>\<^verbatim>\<open>DealInfo\<close> of a piece is a pointer: \<open>None\<close> is \<^verbatim>\<open>nil\<close>.\<close>

record Piece =
  DealInfo :: "DealInfo option"

record SectorInfo =
  SectorNumber :: SectorNumber
  SectorType :: RegisteredSealProof
  Pieces :: "Piece list"

text \<open>
  \<^verbatim>\<open>FailedSectors\<close> is a Go map: \<open>None\<close> is the \<^verbatim>\<open>nil\<close> map, the zero value of
  the field, \<open>Some m\<close> a map that was made. \<^verbatim>\<open>Msg\<close> is a pointer.
\<close>

record CommitBatchRes =
  Sectors :: "SectorNumber list"
  FailedSectors :: "(SectorNumber \<times> string) list option"
  Msg :: "Cid option"
  Error :: string

record Config =
  MaxCommitBatch :: int
  MinCommitBatch :: int
  CommitBatchWait :: Duration
  CommitBatchSlack :: Duration

datatype Method = ProveCommitAggregate | ProveCommitSector

text \<open>
  The parameters of the two messages. The bitfield \<^verbatim>\<open>SectorNumbers\<close> is the list of
  the numbers that are set, without repetition.
\<close>

datatype Params =
    ProveCommitAggregateParams (SectorNumbers: "SectorNumber list") (AggregateProof: bytes)
  | ProveCommitSectorParams SectorNumber bytes

record AggregateSealVerifyProofAndInfos =
  Miner :: "64 word"
  SealProof :: RegisteredSealProof
  Infos :: "AggregateSealVerifyInfo list"

text \<open>
  One call of \<^verbatim>\<open>SendMsg\<close>: its arguments. \<open>msg_params\<close> is the structure that was
  serialised and \<open>msg_enc\<close> the bytes the encoder gave for it.
\<close>

record Message =
  msg_from :: Address
  msg_method :: Method
  msg_value :: TokenAmount
  msg_maxFee :: TokenAmount
  msg_params :: Params
  msg_enc :: bytes

subsection \<open>The collaborators\<close>

text \<open>
  Everything the batcher calls and this file does not define: the chain-node interface
  \<^verbatim>\<open>CommitBatcherApi\<close>, the address selector, the prover, the encoder, the fee
  configuration and the constants of other packages. Each is a field of \<open>env\<close>; the
  miner address and the context, fixed for one batcher, are not arguments.
  \<open>getConfig e k\<close> is what the \<open>k\<close>-th call of \<^verbatim>\<open>getConfig\<close> returns, counting
  from \<open>0\<close>. \<open>GetMaxProveCommitDuration e nv t\<close> stands for
  \<^verbatim>\<open>policy.GetMaxProveCommitDuration(actors.VersionForNetwork(nv), t)\<close>.
  A nil \<^verbatim>\<open>*SectorPreCommitOnChainInfo\<close> is \<open>None\<close>.
\<close>

record env =
  getConfig :: "nat \<Rightarrow> error + Config"
  ChainHead :: "error + (TipSetToken \<times> ChainEpoch)"
  StateNetworkVersion :: "TipSetToken \<Rightarrow> error + Version"
  StateSectorPreCommitInfo ::
    "SectorNumber \<Rightarrow> TipSetToken \<Rightarrow> error + SectorPreCommitOnChainInfo option"
  StateMinerInitialPledgeCollateral ::
    "SectorPreCommitInfo \<Rightarrow> TipSetToken \<Rightarrow> error + TokenAmount"
  StateMinerInfo :: "error + MinerInfo"
  ChainBaseFee :: "TipSetToken \<Rightarrow> error + TokenAmount"
  SendMsg :: "Message \<Rightarrow> error + Cid"
  addrSel :: "MinerInfo \<Rightarrow> TokenAmount \<Rightarrow> TokenAmount \<Rightarrow> error + Address"
  AggregateSealProofs :: "AggregateSealVerifyProofAndInfos \<Rightarrow> bytes list \<Rightarrow> error + bytes"
  IDFromAddress :: "error + 64 word"
  MarshalCBOR :: "Params \<Rightarrow> error + bytes"
  FeeForSectors :: "int \<Rightarrow> TokenAmount"
  MaxCommitGasFee :: TokenAmount
  AggregateNetworkFee :: "Version \<Rightarrow> int \<Rightarrow> TokenAmount \<Rightarrow> TokenAmount"
  GetMaxProveCommitDuration :: "Version \<Rightarrow> RegisteredSealProof \<Rightarrow> ChainEpoch"
  BlockDelaySecs :: "64 word"
  MinAggregatedSectors :: int

subsection \<open>The batcher's state\<close>

text \<open>
  The three maps, and the channels: \<open>notify\<close> holds whether the one-slot channel is
  full, \<open>stop\<close> and \<open>stopped\<close> whether the channel has been closed. A listener's
  channel is a number; \<open>chans\<close> is the next unused one. Traces record what the
  batcher did to the outside: \<open>sent\<close> the arguments of every \<^verbatim>\<open>SendMsg\<close> call,
  \<open>proved\<close> the arguments of every call of the prover's \<^verbatim>\<open>AggregateSealProofs\<close>,
  \<open>delivered\<close> every value sent on a listener's channel, \<open>flushed\<close> every reply
  sent to a \<^verbatim>\<open>Flush\<close> caller, \<open>cfg_reads\<close> the number of calls of
  \<^verbatim>\<open>getConfig\<close>.
\<close>

record CommitBatcher =
  cutoffs :: "(SectorNumber \<times> Time) list"
  todo :: "(SectorNumber \<times> AggregateInput) list"
  waiting :: "(SectorNumber \<times> nat list) list"
  notify :: bool
  stop :: bool
  stopped :: bool
  chans :: nat
  sent :: "Message list"
  proved :: "(AggregateSealVerifyProofAndInfos \<times> bytes list) list"
  delivered :: "(nat \<times> CommitBatchRes) list"
  flushed :: "(nat \<times> CommitBatchRes list) list"
  cfg_reads :: nat

text \<open>
  The state \<^verbatim>\<open>NewCommitBatcher\<close> makes, before it starts \<^verbatim>\<open>run\<close>: empty maps,
  open channels, empty traces.
\<close>

definition NewCommitBatcher :: CommitBatcher where
  "NewCommitBatcher =
    \<lparr>cutoffs = [], todo = [], waiting = [], notify = False, stop = False, stopped = False,
     chans = 0, sent = [], proved = [], delivered = [], flushed = [], cfg_reads = 0\<rparr>"

subsection \<open>The collateral oracle: getSectorCollateral\<close>

definition getSectorCollateral :: "env \<Rightarrow> SectorNumber \<Rightarrow> TipSetToken \<Rightarrow> error + TokenAmount" where
  "getSectorCollateral e sn tok =
    (case StateSectorPreCommitInfo e sn tok of
      Inl err \<Rightarrow> Inl (''getting precommit info: '' @ err)
    | Inr None \<Rightarrow> Inl ''precommit info not found on chain''
    | Inr (Some pci) \<Rightarrow>
        (case StateMinerInitialPledgeCollateral e (Info pci) tok of
          Inl err \<Rightarrow> Inl (''getting initial pledge collateral: '' @ err)
        | Inr collateral \<Rightarrow>
            (let collateral = collateral - PreCommitDeposit pci
             in Inr (if collateral < 0 then 0 else collateral))))"

subsection \<open>The deadline oracle: getCommitCutoff\<close>

text \<open>The loop over \<^verbatim>\<open>si.Pieces\<close>, with the running \<^verbatim>\<open>cutoffEpoch\<close>.\<close>

fun tighten :: "ChainEpoch \<Rightarrow> Piece list \<Rightarrow> ChainEpoch" where
  "tighten cutoffEpoch [] = cutoffEpoch"
| "tighten cutoffEpoch (p # ps) =
    (case DealInfo p of
      None \<Rightarrow> tighten cutoffEpoch ps
    | Some d \<Rightarrow>
        (let startEpoch = StartEpoch (DealSchedule d)
         in if startEpoch <s cutoffEpoch then tighten startEpoch ps
            else tighten cutoffEpoch ps))"

text \<open>
  \<open>now\<close> is what \<^verbatim>\<open>time.Now()\<close> gives at the return. The function returns a time
  also with an error. \<^verbatim>\<open>time.Second\<close> is \<open>1000000000\<close> nanoseconds;
  \<^verbatim>\<open>Time.Add\<close> adds the signed duration.
\<close>

definition getCommitCutoff :: "env \<Rightarrow> Time \<Rightarrow> SectorInfo \<Rightarrow> panic + (Time \<times> error option)" where
  "getCommitCutoff e now si =
    (case ChainHead e of
      Inl err \<Rightarrow> Inr (now, Some (''getting chain head: '' @ err))
    | Inr (tok, curEpoch) \<Rightarrow>
        (case StateNetworkVersion e tok of
          Inl err \<Rightarrow> Inr (now, Some (''getting network version: '' @ err))
        | Inr nv \<Rightarrow>
            (case StateSectorPreCommitInfo e (SectorNumber si) tok of
              Inl err \<Rightarrow> Inr (now, Some err)
            | Inr None \<Rightarrow> Inl NilPointerDereference
            | Inr (Some pci) \<Rightarrow>
                (let cutoffEpoch =
                   tighten (PreCommitEpoch pci + GetMaxProveCommitDuration e nv (SectorType si))
                     (Pieces si)
                 in if cutoffEpoch \<le>s curEpoch then Inr (now, None)
                    else Inr (now + sint ((cutoffEpoch - curEpoch) * BlockDelaySecs e * 1000000000),
                              None)))))"

subsection \<open>Reading the maps\<close>

text \<open>Indexing a Go map with a key it does not hold gives the zero value.\<close>

definition cutoff_at :: "(SectorNumber \<times> Time) list \<Rightarrow> SectorNumber \<Rightarrow> Time" where
  "cutoff_at cs sn = (case map_of cs sn of None \<Rightarrow> 0 | Some t \<Rightarrow> t)"

definition zero_AggregateInput :: AggregateInput where
  "zero_AggregateInput =
    \<lparr>spt = 0,
     info = \<lparr>Number = 0, Randomness = [], InteractiveRandomness = [],
             SealedCID = [], UnsealedCID = []\<rparr>,
     proof' = []\<rparr>"

definition todo_at :: "(SectorNumber \<times> AggregateInput) list \<Rightarrow> SectorNumber \<Rightarrow> AggregateInput" where
  "todo_at td sn = (case map_of td sn of None \<Rightarrow> zero_AggregateInput | Some p \<Rightarrow> p)"

definition waiting_at :: "(SectorNumber \<times> nat list) list \<Rightarrow> SectorNumber \<Rightarrow> nat list" where
  "waiting_at w sn = (case map_of w sn of None \<Rightarrow> [] | Some chs \<Rightarrow> chs)"

subsection \<open>AddCommit\<close>

text \<open>
  The part of \<^verbatim>\<open>AddCommit\<close> up to the release of the lock: the deadline, then the
  three writes, a fresh one-slot channel for this caller and the non-blocking send on
  \<^verbatim>\<open>notify\<close>. The result is a panic, the error of the deadline oracle (the state is
  then untouched), or the caller's channel with the new state.
\<close>

definition AddCommit_enqueue ::
  "env \<Rightarrow> Time \<Rightarrow> SectorInfo \<Rightarrow> AggregateInput \<Rightarrow> CommitBatcher
    \<Rightarrow> panic + (error + nat \<times> CommitBatcher)" where
  "AddCommit_enqueue e now s inp b =
    (let sn = SectorNumber s
     in case getCommitCutoff e now s of
          Inl p \<Rightarrow> Inl p
        | Inr (cu, Some err) \<Rightarrow> Inr (Inl err)
        | Inr (cu, None) \<Rightarrow>
            (let ch = chans b
             in Inr (Inr (ch,
                  b\<lparr>cutoffs := AList.update sn cu (cutoffs b),
                    todo := AList.update sn inp (todo b),
                    waiting := AList.update sn (waiting_at (waiting b) sn @ [ch]) (waiting b),
                    notify := True,
                    chans := chans b + 1\<rparr>))))"

text \<open>
  The final \<^verbatim>\<open>select\<close> of \<^verbatim>\<open>AddCommit\<close>, in a state \<open>b\<close>: \<open>ctx\<close> is
  \<open>Some err\<close> when the caller's context is done with \<^verbatim>\<open>ctx.Err() = err\<close>. The
  value is the list of the results the \<^verbatim>\<open>select\<close> can return: one for each case
  that is ready, since Go takes any ready case. The empty list means that no case is ready
  and the call stays blocked.
\<close>

definition AddCommit_wait ::
  "error option \<Rightarrow> nat \<Rightarrow> CommitBatcher \<Rightarrow> (error + CommitBatchRes) list" where
  "AddCommit_wait ctx ch b =
    (case map_of (delivered b) ch of Some r \<Rightarrow> [Inr r] | None \<Rightarrow> [])
    @ (case ctx of Some err \<Rightarrow> [Inl err] | None \<Rightarrow> [])"

subsection \<open>The timer gate: batchWait\<close>

text \<open>
  One of the two loops over the keys of a map, with the running \<^verbatim>\<open>cutoff\<close>;
  \<^verbatim>\<open>IsZero\<close> is equality with \<open>0\<close> and \<^verbatim>\<open>Before\<close> is \<open><\<close>.
\<close>

fun scan_cutoff :: "(SectorNumber \<times> Time) list \<Rightarrow> Time \<Rightarrow> SectorNumber list \<Rightarrow> Time" where
  "scan_cutoff cs cutoff [] = cutoff"
| "scan_cutoff cs cutoff (sn # sns) =
    (let sectorCutoff = cutoff_at cs sn
     in if cutoff = 0 \<or> (sectorCutoff \<noteq> 0 \<and> sectorCutoff < cutoff)
        then scan_cutoff cs sectorCutoff sns
        else scan_cutoff cs cutoff sns)"

text \<open>
  \<^verbatim>\<open>Time.Sub\<close> gives the difference as a \<^verbatim>\<open>Duration\<close> and saturates at the least
  and the greatest duration.
\<close>

definition Time_Sub :: "Time \<Rightarrow> Time \<Rightarrow> Duration" where
  "Time_Sub t u =
    (if t - u < - (2 ^ 63) then word_of_int (- (2 ^ 63))
     else if 2 ^ 63 - 1 < t - u then word_of_int (2 ^ 63 - 1)
     else word_of_int (t - u))"

text \<open>
  The channel \<^verbatim>\<open>batchWait\<close> returns: \<open>Never\<close> is the nil channel, \<open>After d\<close> is
  \<^verbatim>\<open>time.After(d)\<close>.
\<close>

datatype timer = Never | After Duration

definition batchWait :: "Time \<Rightarrow> Duration \<Rightarrow> Duration \<Rightarrow> CommitBatcher \<Rightarrow> timer" where
  "batchWait now maxWait slack b =
    (if length (todo b) = 0 then Never
     else
       (let cutoff = scan_cutoff (cutoffs b) 0 (map fst (todo b));
            cutoff = scan_cutoff (cutoffs b) cutoff (map fst (waiting b))
        in if cutoff = 0 then After maxWait
           else
             (let cutoff = cutoff + sint (- slack)
              in if cutoff < now then After 1
                 else
                   (let wait = Time_Sub cutoff now
                    in After (if maxWait <s wait then maxWait else wait)))))"

subsection \<open>Batch close: the individual path\<close>

text \<open>
  The assignment \<^verbatim>\<open>r.FailedSectors[sn] = msg\<close>: Go panics when the map is nil.
\<close>

definition set_failed :: "CommitBatchRes \<Rightarrow> SectorNumber \<Rightarrow> string \<Rightarrow> panic + CommitBatchRes" where
  "set_failed r sn msg =
    (case FailedSectors r of
      None \<Rightarrow> Inl NilMapAssignment
    | Some m \<Rightarrow> Inr (r\<lparr>FailedSectors := Some (AList.update sn msg m)\<rparr>))"

definition processSingle ::
  "env \<Rightarrow> MinerInfo \<Rightarrow> SectorNumber \<Rightarrow> AggregateInput \<Rightarrow> TipSetToken \<Rightarrow> CommitBatcher
    \<Rightarrow> (error + Cid) \<times> CommitBatcher" where
  "processSingle e mi sn inp tok b =
    (let params = ProveCommitSectorParams sn (proof' inp)
     in case MarshalCBOR e params of
          Inl err \<Rightarrow> (Inl (''marshaling commit params: '' @ err), b)
        | Inr enc \<Rightarrow>
            (case getSectorCollateral e sn tok of
              Inl err \<Rightarrow> (Inl err, b)
            | Inr collateral \<Rightarrow>
                (let goodFunds = collateral + MaxCommitGasFee e
                 in case addrSel e mi goodFunds collateral of
                      Inl err \<Rightarrow>
                        (Inl (''no good address to send commit message from: '' @ err), b)
                    | Inr from \<Rightarrow>
                        (let m = \<lparr>msg_from = from, msg_method = ProveCommitSector,
                                  msg_value = collateral, msg_maxFee = MaxCommitGasFee e,
                                  msg_params = params, msg_enc = enc\<rparr>;
                             b = b\<lparr>sent := sent b @ [m]\<rparr>
                         in case SendMsg e m of
                              Inl err \<Rightarrow> (Inl (''pushing message to mpool: '' @ err), b)
                            | Inr mcid \<Rightarrow> (Inr mcid, b)))))"

text \<open>The loop of \<^verbatim>\<open>processIndividually\<close> over \<^verbatim>\<open>b.todo\<close>.\<close>

fun individually_loop ::
  "env \<Rightarrow> MinerInfo \<Rightarrow> TipSetToken \<Rightarrow> (SectorNumber \<times> AggregateInput) list
    \<Rightarrow> CommitBatchRes list \<Rightarrow> CommitBatcher \<Rightarrow> panic + (CommitBatchRes list \<times> CommitBatcher)" where
  "individually_loop e mi tok [] res b = Inr (res, b)"
| "individually_loop e mi tok ((sn, inp) # rest) res b =
    (let r = \<lparr>Sectors = [sn], FailedSectors = None, Msg = None, Error = []\<rparr>
     in case processSingle e mi sn inp tok b of
          (Inl err, b) \<Rightarrow>
            (case set_failed r sn err of
              Inl p \<Rightarrow> Inl p
            | Inr r \<Rightarrow> individually_loop e mi tok rest (res @ [r]) b)
        | (Inr mcid, b) \<Rightarrow> individually_loop e mi tok rest (res @ [r\<lparr>Msg := Some mcid\<rparr>]) b)"

text \<open>
  A batch-close path returns the results together with an error, either of which may be
  empty, and the state with its traces.
\<close>

type_synonym path_result = "panic + ((CommitBatchRes list \<times> error option) \<times> CommitBatcher)"

definition processIndividually :: "env \<Rightarrow> CommitBatcher \<Rightarrow> path_result" where
  "processIndividually e b =
    (case StateMinerInfo e of
      Inl err \<Rightarrow> Inr (([], Some (''couldn't get miner info: '' @ err)), b)
    | Inr mi \<Rightarrow>
        (case ChainHead e of
          Inl err \<Rightarrow> Inr (([], Some err), b)
        | Inr (tok, curEpoch) \<Rightarrow>
            (case individually_loop e mi tok (todo b) [] b of
              Inl p \<Rightarrow> Inl p
            | Inr (res, b) \<Rightarrow> Inr ((res, None), b))))"

subsection \<open>Batch close: the aggregate path\<close>

text \<open>
  The variables the first loop of \<^verbatim>\<open>processBatch\<close> updates: the result, the bitfield
  of the parameters, the collected infos and the collateral sum.
\<close>

record collected =
  c_res :: CommitBatchRes
  c_SectorNumbers :: "SectorNumber list"
  c_infos :: "AggregateSealVerifyInfo list"
  c_collateral :: TokenAmount

text \<open>
  The start: \<^verbatim>\<open>var res sealiface.CommitBatchRes\<close> is the zero value, so its
  \<^verbatim>\<open>FailedSectors\<close> is the nil map.
\<close>

definition collected_init :: collected where
  "collected_init =
    \<lparr>c_res = \<lparr>Sectors = [], FailedSectors = None, Msg = None, Error = []\<rparr>,
     c_SectorNumbers = [], c_infos = [], c_collateral = 0\<rparr>"

text \<open>
  The body of the first loop for the entry \<open>(sid, p)\<close> of \<^verbatim>\<open>b.todo\<close>, after the
  test for a full batch.
\<close>

definition select_sector ::
  "env \<Rightarrow> TipSetToken \<Rightarrow> SectorNumber \<Rightarrow> AggregateInput \<Rightarrow> collected \<Rightarrow> panic + collected" where
  "select_sector e tok sid p st =
    (let st = st\<lparr>c_res := (c_res st)\<lparr>Sectors := Sectors (c_res st) @ [sid]\<rparr>\<rparr>
     in case getSectorCollateral e sid tok of
          Inl err \<Rightarrow>
            (case set_failed (c_res st) sid err of
              Inl pn \<Rightarrow> Inl pn
            | Inr r \<Rightarrow> Inr (st\<lparr>c_res := r\<rparr>))
        | Inr sc \<Rightarrow>
            Inr (st\<lparr>c_collateral := c_collateral st + sc,
                    c_SectorNumbers := List.insert sid (c_SectorNumbers st),
                    c_infos := c_infos st @ [info p]\<rparr>))"

fun collect ::
  "env \<Rightarrow> Config \<Rightarrow> TipSetToken \<Rightarrow> (SectorNumber \<times> AggregateInput) list \<Rightarrow> collected
    \<Rightarrow> panic + collected" where
  "collect e cfg tok [] st = Inr st"
| "collect e cfg tok ((sid, p) # rest) st =
    (if MaxCommitBatch cfg \<le> int (length (c_infos st)) then Inr st
     else
       (case select_sector e tok sid p st of
         Inl pn \<Rightarrow> Inl pn
       | Inr st \<Rightarrow> collect e cfg tok rest st))"

text \<open>
  \<^verbatim>\<open>sort.Slice\<close> with \<^verbatim>\<open>infos[i].Number < infos[j].Number\<close>. Go's sort is not
  stable: infos with the same number may come out in any order, and the model takes the
  one of insertion sort.
\<close>

definition sort_infos :: "AggregateSealVerifyInfo list \<Rightarrow> AggregateSealVerifyInfo list" where
  "sort_infos infos = sort_key Number infos"

text \<open>
  What \<^verbatim>\<open>processBatch\<close> has assembled when it reaches the prover: the variables of
  the first loop, with the infos sorted, and the proofs of the second loop.
\<close>

record assembled =
  a_collected :: collected
  a_infos :: "AggregateSealVerifyInfo list"
  a_proofs :: "bytes list"

definition assemble :: "env \<Rightarrow> Config \<Rightarrow> TipSetToken \<Rightarrow> CommitBatcher \<Rightarrow> panic + assembled" where
  "assemble e cfg tok b =
    (case collect e cfg tok (todo b) collected_init of
      Inl pn \<Rightarrow> Inl pn
    | Inr st \<Rightarrow>
        (let infos = sort_infos (c_infos st);
             proofs = map (\<lambda>info. proof' (todo_at (todo b) (Number info))) infos
         in Inr \<lparr>a_collected = st, a_infos = infos, a_proofs = proofs\<rparr>))"

definition processBatch :: "env \<Rightarrow> Config \<Rightarrow> CommitBatcher \<Rightarrow> path_result" where
  "processBatch e cfg b =
    (case ChainHead e of
      Inl err \<Rightarrow> Inr (([], Some err), b)
    | Inr (tok, curEpoch) \<Rightarrow>
    (case assemble e cfg tok b of
      Inl pn \<Rightarrow> Inl pn
    | Inr a \<Rightarrow>
    (let res = c_res (a_collected a);
         infos = a_infos a;
         collateral = c_collateral (a_collected a)
     in
    (case IDFromAddress e of
      Inl err \<Rightarrow> Inr (([res], Some (''getting miner id: '' @ err)), b)
    | Inr mid \<Rightarrow>
    (case infos of
      [] \<Rightarrow> Inl IndexOutOfRange
    | info0 # rest \<Rightarrow>
    (let v = \<lparr>Miner = mid, SealProof = spt (todo_at (todo b) (Number info0)), Infos = infos\<rparr>;
         b = b\<lparr>proved := proved b @ [(v, a_proofs a)]\<rparr>
     in
    (case AggregateSealProofs e v (a_proofs a) of
      Inl err \<Rightarrow> Inr (([res], Some (''aggregating proofs: '' @ err)), b)
    | Inr aggregateProof \<Rightarrow>
    (let params = ProveCommitAggregateParams (c_SectorNumbers (a_collected a)) aggregateProof
     in
    (case MarshalCBOR e params of
      Inl err \<Rightarrow>
        Inr (([res], Some (''couldn't serialize ProveCommitAggregateParams: '' @ err)), b)
    | Inr enc \<Rightarrow>
    (case StateMinerInfo e of
      Inl err \<Rightarrow> Inr (([res], Some (''couldn't get miner info: '' @ err)), b)
    | Inr mi \<Rightarrow>
    (let maxFee = FeeForSectors e (int (length infos))
     in
    (case ChainBaseFee e tok of
      Inl err \<Rightarrow> Inr (([res], Some (''couldn't get base fee: '' @ err)), b)
    | Inr bf \<Rightarrow>
    (case StateNetworkVersion e tok of
      Inl err \<Rightarrow> Inr (([res], Some (''getting network version: '' @ err)), b)
    | Inr nv \<Rightarrow>
    (let aggFee = AggregateNetworkFee e nv (int (length infos)) bf;
         goodFunds = maxFee + (collateral + aggFee)
     in
    (case addrSel e mi goodFunds collateral of
      Inl err \<Rightarrow> Inr (([res], Some (''no good address found: '' @ err)), b)
    | Inr from \<Rightarrow>
    (let m = \<lparr>msg_from = from, msg_method = ProveCommitAggregate, msg_value = collateral,
              msg_maxFee = maxFee, msg_params = params, msg_enc = enc\<rparr>;
         b = b\<lparr>sent := sent b @ [m]\<rparr>
     in
    (case SendMsg e m of
      Inl err \<Rightarrow> Inr (([res], Some (''sending message failed: '' @ err)), b)
    | Inr mcid \<Rightarrow> Inr (([res\<lparr>Msg := Some mcid\<rparr>], None), b))))))))))))))))))"

subsection \<open>Batch close: maybeStartBatch\<close>

text \<open>
  The inner loops of the notification: \<open>r\<close> is sent on every channel of
  \<^verbatim>\<open>b.waiting[sn]\<close>, then the sector is deleted from the three maps. A listener's
  channel has one slot and is in \<open>waiting\<close> until its sector is erased, so the send
  finds the slot free.
\<close>

definition notify_sector :: "CommitBatchRes \<Rightarrow> SectorNumber \<Rightarrow> CommitBatcher \<Rightarrow> CommitBatcher" where
  "notify_sector r sn b =
    b\<lparr>delivered := delivered b @ map (\<lambda>ch. (ch, r)) (waiting_at (waiting b) sn),
      waiting := AList.delete sn (waiting b),
      todo := AList.delete sn (todo b),
      cutoffs := AList.delete sn (cutoffs b)\<rparr>"

text \<open>
  The loop over the results. \<^verbatim>\<open>r\<close> is a copy: the error is written to what the
  listeners get, not to the elements of \<^verbatim>\<open>res\<close>.
\<close>

fun notify_results :: "error option \<Rightarrow> CommitBatchRes list \<Rightarrow> CommitBatcher \<Rightarrow> CommitBatcher" where
  "notify_results err [] b = b"
| "notify_results err (r # rs) b =
    (let r = (case err of None \<Rightarrow> r | Some msg \<Rightarrow> r\<lparr>Error := msg\<rparr>)
     in notify_results err rs (fold (notify_sector r) (Sectors r) b))"

text \<open>What \<^verbatim>\<open>maybeStartBatch\<close> does with the outcome of the chosen path.\<close>

definition finish_batch :: "path_result \<Rightarrow> path_result" where
  "finish_batch pr =
    (case pr of
      Inl pn \<Rightarrow> Inl pn
    | Inr ((res, err), b) \<Rightarrow>
        (if err \<noteq> None \<and> length res = 0 then Inr (([], err), b)
         else Inr ((res, None), notify_results err res b)))"

definition maybeStartBatch :: "env \<Rightarrow> bool \<Rightarrow> bool \<Rightarrow> CommitBatcher \<Rightarrow> path_result" where
  "maybeStartBatch e notif after b =
    (let total = int (length (todo b))
     in if total = 0 then Inr (([], None), b)
        else
          (let c = getConfig e (cfg_reads b);
               b = b\<lparr>cfg_reads := cfg_reads b + 1\<rparr>
           in case c of
                Inl err \<Rightarrow> Inr (([], Some (''getting config: '' @ err)), b)
              | Inr cfg \<Rightarrow>
                  (if notif \<and> total < MaxCommitBatch cfg then Inr (([], None), b)
                   else if after \<and> total < MinCommitBatch cfg then Inr (([], None), b)
                   else finish_batch
                     (if total < MinCommitBatch cfg \<or> total < MinAggregatedSectors e
                      then processIndividually e b
                      else processBatch e cfg b))))"

subsection \<open>The scheduler loop: run\<close>

text \<open>
  The local variables of \<^verbatim>\<open>run\<close>: the reply channel of a pending flush, the last
  results, and the configuration read before the loop.
\<close>

record sched =
  forceRes :: "nat option"
  lastMsg :: "CommitBatchRes list"
  cfg :: Config

definition run_start :: "env \<Rightarrow> CommitBatcher \<Rightarrow> panic + (sched \<times> CommitBatcher)" where
  "run_start e b =
    (case getConfig e (cfg_reads b) of
      Inl err \<Rightarrow> Inl (ExplicitPanic err)
    | Inr c \<Rightarrow>
        Inr (\<lparr>forceRes = None, lastMsg = [], cfg = c\<rparr>, b\<lparr>cfg_reads := cfg_reads b + 1\<rparr>))"

text \<open>
  The case the \<^verbatim>\<open>select\<close> of one iteration takes; the timer case carries the
  instant at which it is taken.
\<close>

datatype wake = WakeStop | WakeNotify | WakeTimer Time | WakeForce nat

definition run_batch ::
  "env \<Rightarrow> bool \<Rightarrow> bool \<Rightarrow> sched \<Rightarrow> CommitBatcher \<Rightarrow> panic + (sched option \<times> CommitBatcher)" where
  "run_batch e sendAboveMax sendAboveMin s b =
    (case maybeStartBatch e sendAboveMax sendAboveMin b of
      Inl pn \<Rightarrow> Inl pn
    | Inr ((res, err), b) \<Rightarrow> Inr (Some (s\<lparr>lastMsg := res\<rparr>), b))"

text \<open>
  One iteration of the loop, for the case \<open>w\<close> of the \<^verbatim>\<open>select\<close>; \<open>now\<close> is
  the instant at which the iteration calls \<^verbatim>\<open>batchWait\<close>. The outer \<open>None\<close> says
  that the case is not ready, so the \<^verbatim>\<open>select\<close> does not take it: the stop case
  needs the closed channel, the notify case a full slot, and the timer case a timer
  \<^verbatim>\<open>time.After(d)\<close> that has run for \<open>d\<close>, which it has not before the instant
  \<open>now + d\<close>. A scheduler state \<open>None\<close> in the result says that \<^verbatim>\<open>run\<close> has
  returned. The timer is built from the configuration of \<open>s\<close>.
\<close>

definition run_iter ::
  "env \<Rightarrow> Time \<Rightarrow> wake \<Rightarrow> sched \<Rightarrow> CommitBatcher
    \<Rightarrow> (panic + (sched option \<times> CommitBatcher)) option" where
  "run_iter e now w s b =
    (let b = (case forceRes s of
                Some fr \<Rightarrow> b\<lparr>flushed := flushed b @ [(fr, lastMsg s)]\<rparr>
              | None \<Rightarrow> b);
         s = s\<lparr>forceRes := None, lastMsg := []\<rparr>
     in case w of
          WakeStop \<Rightarrow>
            (if stop b
             then Some (if stopped b then Inl CloseOfClosedChannel
                        else Inr (None, b\<lparr>stopped := True\<rparr>))
             else None)
        | WakeNotify \<Rightarrow>
            (if notify b then Some (run_batch e True False s (b\<lparr>notify := False\<rparr>)) else None)
        | WakeTimer t \<Rightarrow>
            (case batchWait now (CommitBatchWait (cfg s)) (CommitBatchSlack (cfg s)) b of
              Never \<Rightarrow> None
            | After d \<Rightarrow>
                (if now + sint d \<le> t then Some (run_batch e False True s b) else None))
        | WakeForce fr \<Rightarrow> Some (run_batch e False False (s\<lparr>forceRes := Some fr\<rparr>) b))"

subsection \<open>Stop\<close>

text \<open>
  \<^verbatim>\<open>Stop\<close> is \<^verbatim>\<open>close(b.stop)\<close> followed by a \<^verbatim>\<open>select\<close> that waits for the
  scheduler to close \<^verbatim>\<open>b.stopped\<close> or for the caller's context. Closing a closed
  channel panics. \<open>Stop_wait ctx b\<close> is the list of the results the \<^verbatim>\<open>select\<close> can
  return in the state \<open>b\<close>, one for each ready case: \<open>None\<close> is Go's \<^verbatim>\<open>nil\<close>
  error, the result when \<^verbatim>\<open>b.stopped\<close> is closed, and \<open>Some err\<close> is
  \<^verbatim>\<open>ctx.Err()\<close> of a context that is done. The empty list means that the call
  stays blocked.
\<close>

definition Stop_close :: "CommitBatcher \<Rightarrow> panic + CommitBatcher" where
  "Stop_close b = (if stop b then Inl CloseOfClosedChannel else Inr (b\<lparr>stop := True\<rparr>))"

definition Stop_wait :: "error option \<Rightarrow> CommitBatcher \<Rightarrow> error option list" where
  "Stop_wait ctx b =
    (if stopped b then [None] else [])
    @ (case ctx of Some err \<Rightarrow> [Some err] | None \<Rightarrow> [])"

text \<open>
  What the goroutines of the batcher can make of a state: any number of iterations of
  the scheduler loop and of \<^verbatim>\<open>AddCommit\<close> calls, with any collaborators, at any
  instants. (\<^verbatim>\<open>Flush\<close>, \<^verbatim>\<open>Pending\<close> and the two waits do not write to the state.)
\<close>

inductive reaches :: "CommitBatcher \<Rightarrow> CommitBatcher \<Rightarrow> bool" where
  reaches_refl: "reaches b b"
| reaches_run: "reaches b b1 \<Longrightarrow> run_iter e now w s b1 = Some (Inr (s', b2)) \<Longrightarrow> reaches b b2"
| reaches_add:
    "reaches b b1 \<Longrightarrow> AddCommit_enqueue e now si inp b1 = Inr (Inr (ch, b2)) \<Longrightarrow> reaches b b2"

section \<open>What the specification says\<close>

text \<open>
  The value of a Go \<^verbatim>\<open>int64\<close> expression whose exact result is \<open>x\<close>: the
  representative of \<open>x\<close> modulo \<open>2 ^ 64\<close> between \<open>- 2 ^ 63\<close> and \<open>2 ^ 63 - 1\<close>.
\<close>

definition int64 :: "int \<Rightarrow> int" where
  "int64 x = (x + 2 ^ 63) mod 2 ^ 64 - 2 ^ 63"

subsection \<open>Deadline oracle (section 4.2)\<close>

text \<open>The start epochs of the pieces that have a deal.\<close>

definition deal_starts :: "Piece list \<Rightarrow> ChainEpoch list" where
  "deal_starts ps =
    List.map_filter (\<lambda>p. map_option (\<lambda>d. StartEpoch (DealSchedule d)) (DealInfo p)) ps"

text \<open>
  Steps 4 and 5: the pre-commit epoch plus the maximum prove-commit duration, tightened
  by the minimum with every deal start.
\<close>

definition cutoffEpoch_spec :: "int \<Rightarrow> int \<Rightarrow> int list \<Rightarrow> int" where
  "cutoffEpoch_spec preCommitEpoch maxDuration starts =
    Min (insert (int64 (preCommitEpoch + maxDuration)) (set starts))"

text \<open>
  Steps 6 and 7, in nanoseconds: "now" when the cutoff epoch is at or before the current
  epoch, else now plus the epochs left times the block delay.
\<close>

definition deadline_spec :: "Time \<Rightarrow> int \<Rightarrow> int \<Rightarrow> int \<Rightarrow> Time" where
  "deadline_spec now currentEpoch blockDelaySecs cutoffEpoch =
    (if cutoffEpoch \<le> currentEpoch then now
     else now + int64 ((cutoffEpoch - currentEpoch) * blockDelaySecs * 1000000000))"

subsection \<open>Timer gate (section 4.4)\<close>

text \<open>
  Step 2: the minimum of the cutoffs of the sectors in \<open>todo\<close> and \<open>waiting\<close>, where
  a zero cutoff is no cutoff; \<open>None\<close> when all are zero.
\<close>

definition min_cutoff_spec :: "CommitBatcher \<Rightarrow> Time option" where
  "min_cutoff_spec b =
    (let cs = filter (\<lambda>t. t \<noteq> 0)
                (map (cutoff_at (cutoffs b)) (map fst (todo b) @ map fst (waiting b)))
     in if cs = [] then None else Some (Min (set cs)))"

text \<open>When the timer fires: never, or after a delay in nanoseconds.\<close>

datatype fire = NoTimer | FireAfter int

fun timer_fire :: "timer \<Rightarrow> fire" where
  "timer_fire Never = NoTimer"
| "timer_fire (After d) = FireAfter (sint d)"

text \<open>
  Steps 1, 3 and 4. The target is the minimum cutoff minus the slack, the slack negated
  as a duration; a target in the past gives the least positive delay, one nanosecond.
\<close>

definition batchWait_spec :: "Time \<Rightarrow> int \<Rightarrow> int \<Rightarrow> CommitBatcher \<Rightarrow> fire" where
  "batchWait_spec now maxWait slack b =
    (if todo b = [] then NoTimer
     else
       (case min_cutoff_spec b of
         None \<Rightarrow> FireAfter maxWait
       | Some c \<Rightarrow>
           (let target = c + int64 (- slack)
            in if target < now then FireAfter 1
               else FireAfter (min (target - now) maxWait))))"

subsection \<open>The gate of batch close (section 4.6)\<close>

datatype gate = GateEmpty | GateIndividual | GateAggregate

definition gate_spec :: "int \<Rightarrow> Config \<Rightarrow> bool \<Rightarrow> bool \<Rightarrow> nat \<Rightarrow> gate" where
  "gate_spec minAggregatedSectors c aboveMax aboveMin n =
    (if n = 0 then GateEmpty
     else if aboveMax \<and> int n < MaxCommitBatch c then GateEmpty
     else if aboveMin \<and> int n < MinCommitBatch c then GateEmpty
     else if int n < MinCommitBatch c \<or> int n < minAggregatedSectors then GateIndividual
     else GateAggregate)"

subsection \<open>The aggregate path (sections 4.6.1 and 8)\<close>



subsection \<open>The individual path (section 4.6.2)\<close>

text \<open>What kind of message a call of \<^verbatim>\<open>SendMsg\<close> carries: its method and parameters.\<close>

definition msg_kind :: "Message \<Rightarrow> Method \<times> Params" where
  "msg_kind m = (msg_method m, msg_params m)"

text \<open>The per-sector message of an entry of \<open>todo\<close>.\<close>

definition single_kind :: "SectorNumber \<times> AggregateInput \<Rightarrow> Method \<times> Params" where
  "single_kind x = (ProveCommitSector, ProveCommitSectorParams (fst x) (proof' (snd x)))"

text \<open>
  The entry is submitted without error: serialisation, collateral, address selection and
  \<^verbatim>\<open>SendMsg\<close> all succeed for it.
\<close>

definition single_ok ::
  "env \<Rightarrow> MinerInfo \<Rightarrow> TipSetToken \<Rightarrow> SectorNumber \<times> AggregateInput \<Rightarrow> bool" where
  "single_ok e mi tok x =
    (case fst (processSingle e mi (fst x) (snd x) tok NewCommitBatcher) of
      Inl err \<Rightarrow> False
    | Inr mcid \<Rightarrow> True)"

section \<open>An example miner\<close>

text \<open>
  Concrete collaborators and states on which the theorems below are instantiated:
  a chain at epoch \<open>120\<close> where every sector was pre-committed at epoch \<open>100\<close> with a
  deposit of \<open>10\<close> and a pledge of \<open>25\<close>, a block delay of \<open>30\<close> seconds and the
  protocol floor of \<open>4\<close> sectors for an aggregate.
\<close>

definition ex_cfg :: Config where
  "ex_cfg =
    \<lparr>MaxCommitBatch = 4, MinCommitBatch = 2,
     CommitBatchWait = 30000000000, CommitBatchSlack = 1000000000\<rparr>"

definition ex_pci :: SectorPreCommitOnChainInfo where
  "ex_pci = \<lparr>Info = ''precommit'', PreCommitDeposit = 10, PreCommitEpoch = 100\<rparr>"

definition ex_env :: env where
  "ex_env =
    \<lparr>getConfig = (\<lambda>k. Inr ex_cfg),
     ChainHead = Inr ([], 120),
     StateNetworkVersion = (\<lambda>tok. Inr 13),
     StateSectorPreCommitInfo = (\<lambda>sn tok. Inr (Some ex_pci)),
     StateMinerInitialPledgeCollateral = (\<lambda>i tok. Inr 25),
     StateMinerInfo = Inr ''miner'',
     ChainBaseFee = (\<lambda>tok. Inr 100),
     SendMsg = (\<lambda>m. Inr ''bafy''),
     addrSel = (\<lambda>mi goodFunds minFunds. Inr ''worker''),
     AggregateSealProofs = (\<lambda>v proofs. Inr (concat proofs)),
     IDFromAddress = Inr 1000,
     MarshalCBOR = (\<lambda>p. Inr []),
     FeeForSectors = (\<lambda>n. 5 * n),
     MaxCommitGasFee = 7,
     AggregateNetworkFee = (\<lambda>nv n bf. n * bf),
     GetMaxProveCommitDuration = (\<lambda>nv t. 1000),
     BlockDelaySecs = 30,
     MinAggregatedSectors = 4\<rparr>"

definition ex_input :: "SectorNumber \<Rightarrow> AggregateInput" where
  "ex_input sn =
    \<lparr>spt = 8,
     info = \<lparr>Number = sn, Randomness = [], InteractiveRandomness = [],
             SealedCID = ''sealed'', UnsealedCID = ''unsealed''\<rparr>,
     proof' = [ucast sn]\<rparr>"

definition ex_sector :: "SectorNumber \<Rightarrow> Piece list \<Rightarrow> SectorInfo" where
  "ex_sector sn ps = \<lparr>SectorNumber = sn, SectorType = 8, Pieces = ps\<rparr>"

definition ex_piece :: "ChainEpoch \<Rightarrow> Piece" where
  "ex_piece start =
    \<lparr>DealInfo = Some \<lparr>DealID = 1, DealSchedule = \<lparr>StartEpoch = start, EndEpoch = start + 1000\<rparr>\<rparr>\<rparr>"

text \<open>A batcher that holds the given sectors, each with one listener and the given cutoff.\<close>

definition ex_batcher :: "(SectorNumber \<times> Time) list \<Rightarrow> CommitBatcher" where
  "ex_batcher scs =
    NewCommitBatcher
      \<lparr>cutoffs := scs,
       todo := map (\<lambda>(sn, t). (sn, ex_input sn)) scs,
       waiting := map (\<lambda>((sn, t), ch). (sn, [ch])) (zip scs [0 ..< length scs]),
       chans := length scs\<rparr>"

text \<open>The same chain, where the pre-commit lookup of sector \<open>7\<close> fails.\<close>

definition ex_fail_env :: env where
  "ex_fail_env =
    ex_env\<lparr>StateSectorPreCommitInfo :=
      (\<lambda>sn tok. if sn = 7 then Inl ''not available'' else Inr (Some ex_pci))\<rparr>"

text \<open>A configuration whose maximum is below its minimum and below the protocol floor.\<close>

definition ex_small_cfg :: Config where
  "ex_small_cfg = ex_cfg\<lparr>MaxCommitBatch := 3, MinCommitBatch := 4\<rparr>"

definition ex_small_env :: env where
  "ex_small_env = ex_env\<lparr>getConfig := (\<lambda>k. Inr ex_small_cfg)\<rparr>"

text \<open>
  A configuration source that changes after the first read: from the second read on the
  maximum and the minimum are \<open>1\<close>.
\<close>

definition ex_reload_env :: env where
  "ex_reload_env =
    ex_env\<lparr>getConfig :=
      (\<lambda>k. if k = 0 then Inr ex_cfg
           else Inr (ex_cfg\<lparr>MaxCommitBatch := 1, MinCommitBatch := 1\<rparr>))\<rparr>"

text \<open>The messages and results that the example runs below produce.\<close>

definition ex_aggregate_msg :: Message where
  "ex_aggregate_msg =
    \<lparr>msg_from = ''worker'', msg_method = ProveCommitAggregate, msg_value = 45,
     msg_maxFee = 15, msg_params = ProveCommitAggregateParams [7, 6, 5] [5, 6, 7],
     msg_enc = []\<rparr>"

definition ex_aggregate_call :: "AggregateSealVerifyProofAndInfos \<times> bytes list" where
  "ex_aggregate_call =
    (\<lparr>Miner = 1000, SealProof = 8,
      Infos = [info (ex_input 5), info (ex_input 6), info (ex_input 7)]\<rparr>,
     [[5], [6], [7]])"

definition ex_aggregate_res :: CommitBatchRes where
  "ex_aggregate_res =
    \<lparr>Sectors = [5, 6, 7], FailedSectors = None, Msg = Some ''bafy'', Error = []\<rparr>"

definition ex_single_msg :: Message where
  "ex_single_msg =
    \<lparr>msg_from = ''worker'', msg_method = ProveCommitSector, msg_value = 15,
     msg_maxFee = 7, msg_params = ProveCommitSectorParams 5 [5], msg_enc = []\<rparr>"

definition ex_single_res :: CommitBatchRes where
  "ex_single_res = \<lparr>Sectors = [5], FailedSectors = None, Msg = Some ''bafy'', Error = []\<rparr>"

section \<open>Notions used in the proofs\<close>

text \<open>The least non-zero time of a list, and \<open>0\<close> when there is none.\<close>

definition min0 :: "Time list \<Rightarrow> Time" where
  "min0 ts = (let nz = filter (\<lambda>t. t \<noteq> 0) ts in if nz = [] then 0 else Min (set nz))"

text \<open>
  Two states agree on everything but the three maps and the values delivered to
  listeners.
\<close>

definition same_outside :: "CommitBatcher \<Rightarrow> CommitBatcher \<Rightarrow> bool" where
  "same_outside b b' \<longleftrightarrow>
    notify b' = notify b \<and> stop b' = stop b \<and> stopped b' = stopped b \<and> chans b' = chans b
    \<and> sent b' = sent b \<and> proved b' = proved b \<and> flushed b' = flushed b
    \<and> cfg_reads b' = cfg_reads b"


section \<open>Arithmetic of 64-bit values\<close>

lemma sint_word_of_int64: "sint (word_of_int x :: 64 word) = int64 x"
  by (simp add: int64_def sint_sbintrunc' signed_take_bit_eq_take_bit_shift take_bit_eq_mod)

lemma int64_sint: "int64 (sint (w :: 64 word)) = sint w"
proof -
  have "(word_of_int (sint w) :: 64 word) = w"
    by (simp only: of_int_sint scast_id)
  then show ?thesis using sint_word_of_int64 [of "sint w"] by (simp only:)
qed

text \<open>Inside the range of \<^verbatim>\<open>int64\<close> nothing wraps.\<close>

lemma int64_id: "- (2 ^ 63) \<le> x \<Longrightarrow> x < 2 ^ 63 \<Longrightarrow> int64 x = x"
  by (simp add: int64_def)

lemma sint_add64: "sint (a + b :: 64 word) = int64 (sint a + sint b)"
proof -
  have "(word_of_int (sint a + sint b) :: 64 word) = a + b"
    by (simp only: of_int_add of_int_sint scast_id)
  then show ?thesis using sint_word_of_int64 [of "sint a + sint b"] by (simp only:)
qed

lemma sint_neg64: "sint (- a :: 64 word) = int64 (- sint a)"
proof -
  have "(word_of_int (- sint a) :: 64 word) = - a"
    by (simp only: of_int_minus of_int_sint scast_id)
  then show ?thesis using sint_word_of_int64 [of "- sint a"] by (simp only:)
qed

lemma sint_deadline64:
  "sint ((a - b) * d * 1000000000 :: 64 word) = int64 ((sint a - sint b) * uint d * 1000000000)"
proof -
  have "(word_of_int ((sint a - sint b) * uint d * 1000000000) :: 64 word)
      = (word_of_int (sint a) - word_of_int (sint b)) * word_of_int (uint d) * word_of_int 1000000000"
    by (simp only: of_int_mult of_int_diff)
  also have "\<dots> = (a - b) * d * 1000000000"
    by (simp only: of_int_sint of_int_uint of_int_numeral scast_id ucast_id)
  finally show ?thesis by (simp only: sint_word_of_int64 [symmetric])
qed

lemma Min_insert_le:
  fixes a :: int
  assumes "finite S" "a \<le> s"
  shows "Min (insert a (insert s S)) = Min (insert a S)"
proof (cases "S = {}")
  case True
  then show ?thesis using assms by (simp add: min_def)
next
  case False
  have 1: "Min (insert a (insert s S)) = min a (Min (insert s S))"
    by (rule Min_insert) (use assms in auto)
  have 2: "Min (insert s S) = min s (Min S)"
    by (rule Min_insert) (use assms False in auto)
  have 3: "Min (insert a S) = min a (Min S)"
    by (rule Min_insert) (use assms False in auto)
  show ?thesis unfolding 1 2 3 using assms(2) by linarith
qed

lemma Min_insert_gt:
  fixes a :: int
  assumes "finite S" "s < a"
  shows "Min (insert a (insert s S)) = Min (insert s S)"
proof (cases "S = {}")
  case True
  then show ?thesis using assms by (simp add: min_def)
next
  case False
  have 1: "Min (insert a (insert s S)) = min a (Min (insert s S))"
    by (rule Min_insert) (use assms in auto)
  have 2: "Min (insert s S) = min s (Min S)"
    by (rule Min_insert) (use assms False in auto)
  show ?thesis unfolding 1 2 using assms(2) by linarith
qed

section \<open>The deadline oracle\<close>

lemma deal_starts_Cons:
  "deal_starts (p # ps) =
    (case DealInfo p of None \<Rightarrow> deal_starts ps
     | Some d \<Rightarrow> StartEpoch (DealSchedule d) # deal_starts ps)"
  by (simp add: deal_starts_def map_filter_simps split: option.split)

lemma deal_starts_Nil: "deal_starts [] = []"
  by (simp add: deal_starts_def map_filter_simps)

text \<open>The loop over the pieces computes the minimum, as signed values.\<close>

lemma sint_tighten:
  "sint (tighten c ps) = Min (insert (sint c) (sint ` set (deal_starts ps)))"
proof (induction ps arbitrary: c)
  case Nil
  then show ?case by (simp add: deal_starts_Nil)
next
  case (Cons p ps)
  show ?case
  proof (cases "DealInfo p")
    case None
    have L: "tighten c (p # ps) = tighten c ps" using None by simp
    have R: "deal_starts (p # ps) = deal_starts ps" using None by (simp add: deal_starts_Cons)
    show ?thesis by (simp only: L R Cons.IH)
  next
    case (Some d)
    let ?s = "StartEpoch (DealSchedule d)"
    let ?S = "sint ` set (deal_starts ps)"
    have fin: "finite ?S" by simp
    have R: "sint ` set (deal_starts (p # ps)) = insert (sint ?s) ?S"
      using Some by (simp add: deal_starts_Cons)
    show ?thesis
    proof (cases "?s <s c")
      case True
      have L: "tighten c (p # ps) = tighten ?s ps" using Some True by (simp add: Let_def)
      from True have "sint ?s < sint c" by (simp add: word_sless_alt)
      then have M: "Min (insert (sint c) (insert (sint ?s) ?S)) = Min (insert (sint ?s) ?S)"
        by (rule Min_insert_gt [OF fin])
      show ?thesis by (simp only: L R Cons.IH M)
    next
      case False
      have L: "tighten c (p # ps) = tighten c ps" using Some False by (simp add: Let_def)
      from False have "sint c \<le> sint ?s" by (simp add: word_sless_alt)
      then have M: "Min (insert (sint c) (insert (sint ?s) ?S)) = Min (insert (sint c) ?S)"
        by (rule Min_insert_le [OF fin])
      show ?thesis by (simp only: L R Cons.IH M)
    qed
  qed
qed

lemma getCommitCutoff_eq:
  assumes "ChainHead e = Inr (tok, currentEpoch)"
    and "StateNetworkVersion e tok = Inr nv"
    and "StateSectorPreCommitInfo e (SectorNumber si) tok = Inr (Some pci)"
  shows "getCommitCutoff e now si =
    Inr (deadline_spec now (sint currentEpoch) (uint (BlockDelaySecs e))
          (cutoffEpoch_spec (sint (PreCommitEpoch pci))
            (sint (GetMaxProveCommitDuration e nv (SectorType si)))
            (map sint (deal_starts (Pieces si)))),
         None)"
proof -
  let ?c = "tighten (PreCommitEpoch pci + GetMaxProveCommitDuration e nv (SectorType si)) (Pieces si)"
  have c: "sint ?c = cutoffEpoch_spec (sint (PreCommitEpoch pci))
            (sint (GetMaxProveCommitDuration e nv (SectorType si)))
            (map sint (deal_starts (Pieces si)))"
    by (simp only: sint_tighten sint_add64 cutoffEpoch_spec_def set_map)
  have "getCommitCutoff e now si =
      (if ?c \<le>s currentEpoch then Inr (now, None)
       else Inr (now + sint ((?c - currentEpoch) * BlockDelaySecs e * 1000000000), None))"
    using assms by (simp add: getCommitCutoff_def Let_def)
  also have "\<dots> = Inr (deadline_spec now (sint currentEpoch) (uint (BlockDelaySecs e)) (sint ?c), None)"
    by (simp add: deadline_spec_def word_sle_eq sint_deadline64)
  finally show ?thesis by (simp only: c)
qed

text \<open>
  Claim C8. When the three lookups succeed and the pre-commit record is there, the
  deadline oracle returns, without error, the instant of section 4.2: the cutoff epoch
  is the pre-commit epoch plus the maximum prove-commit duration, lowered to the least
  start epoch of the pieces that have a deal; the result is "now" when that epoch is at
  or before the current epoch, and otherwise now plus the epochs left times the block
  delay in seconds (times \<open>1000000000\<close>, the instant being in nanoseconds). The sum and
  the product are those of Go's 64-bit integers, \<open>int64\<close>, which is the identity on
  every value between \<open>- 2 ^ 63\<close> and \<open>2 ^ 63 - 1\<close> (lemma \<open>int64_id\<close>).
\<close>

theorem getCommitCutoff_spec:
  assumes "ChainHead e = Inr (tok, currentEpoch)"
    and "StateNetworkVersion e tok = Inr nv"
    and "StateSectorPreCommitInfo e (SectorNumber si) tok = Inr (Some pci)"
  shows "getCommitCutoff e now si =
    Inr (deadline_spec now (sint currentEpoch) (uint (BlockDelaySecs e))
          (cutoffEpoch_spec (sint (PreCommitEpoch pci))
            (sint (GetMaxProveCommitDuration e nv (SectorType si)))
            (map sint (deal_starts (Pieces si)))),
         None)"
  using assms by (rule getCommitCutoff_eq)

theorem getCommitCutoff_spec_witness:
  "getCommitCutoff ex_env 5000 (ex_sector 7 [ex_piece 500, \<lparr>DealInfo = None\<rparr>, ex_piece 700])
    = Inr (11400000005000, None)"
proof -
  let ?si = "ex_sector 7 [ex_piece 500, \<lparr>DealInfo = None\<rparr>, ex_piece 700]"
  have h1: "ChainHead ex_env = Inr ([], 120)" by (simp add: ex_env_def)
  have h2: "StateNetworkVersion ex_env [] = Inr 13" by (simp add: ex_env_def)
  have h3: "StateSectorPreCommitInfo ex_env (SectorNumber ?si) [] = Inr (Some ex_pci)"
    by (simp add: ex_env_def)
  show ?thesis
    using getCommitCutoff_spec [OF h1 h2 h3, of 5000]
    by (simp add: ex_env_def ex_sector_def ex_piece_def ex_pci_def deal_starts_Cons
        deal_starts_Nil cutoffEpoch_spec_def deadline_spec_def int64_def)
qed

text \<open>
  Inside the range of 64-bit integers nothing wraps, and the deadline is the exact
  integer expression of section 4.2.
\<close>

lemma getCommitCutoff_exact:
  assumes "ChainHead e = Inr (tok, currentEpoch)"
    and "StateNetworkVersion e tok = Inr nv"
    and "StateSectorPreCommitInfo e (SectorNumber si) tok = Inr (Some pci)"
    and ce: "ce = Min (insert (sint (PreCommitEpoch pci)
                  + sint (GetMaxProveCommitDuration e nv (SectorType si)))
               (sint ` set (deal_starts (Pieces si))))"
    and sum: "- (2 ^ 63) \<le> sint (PreCommitEpoch pci)
                  + sint (GetMaxProveCommitDuration e nv (SectorType si))"
      "sint (PreCommitEpoch pci) + sint (GetMaxProveCommitDuration e nv (SectorType si)) < 2 ^ 63"
    and prod: "(ce - sint currentEpoch) * uint (BlockDelaySecs e) * 1000000000 < 2 ^ 63"
  shows "getCommitCutoff e now si =
    Inr (if ce \<le> sint currentEpoch then now
         else now + (ce - sint currentEpoch) * uint (BlockDelaySecs e) * 1000000000, None)"
proof -
  have c: "cutoffEpoch_spec (sint (PreCommitEpoch pci))
            (sint (GetMaxProveCommitDuration e nv (SectorType si)))
            (map sint (deal_starts (Pieces si))) = ce"
    using sum by (simp add: cutoffEpoch_spec_def ce int64_id)
  show ?thesis
  proof (cases "ce \<le> sint currentEpoch")
    case True
    then show ?thesis
      using getCommitCutoff_eq [OF assms(1-3), of now] by (simp add: c deadline_spec_def)
  next
    case False
    then have "0 \<le> (ce - sint currentEpoch) * uint (BlockDelaySecs e) * 1000000000"
      by simp
    then have "int64 ((ce - sint currentEpoch) * uint (BlockDelaySecs e) * 1000000000)
        = (ce - sint currentEpoch) * uint (BlockDelaySecs e) * 1000000000"
      using prod by (intro int64_id) simp_all
    then show ?thesis
      using False getCommitCutoff_eq [OF assms(1-3), of now] by (simp add: c deadline_spec_def)
  qed
qed

text \<open>
  Claim C10. When the chain node answers the pre-commit lookup of a deadline
  computation with a nil record and no error, \<^verbatim>\<open>getCommitCutoff\<close> reads
  \<^verbatim>\<open>pci.PreCommitEpoch\<close> through the nil pointer: it panics, and so does
  \<^verbatim>\<open>AddCommit\<close>, instead of returning an error. The collateral oracle checks the
  same answer and returns the error "precommit info not found on chain".
\<close>

theorem getCommitCutoff_nil_precommit_info:
  assumes "ChainHead e = Inr (tok, currentEpoch)"
    and "StateNetworkVersion e tok = Inr nv"
    and "StateSectorPreCommitInfo e (SectorNumber s) tok = Inr None"
  shows "getCommitCutoff e now s = Inl NilPointerDereference
    \<and> AddCommit_enqueue e now s inp b = Inl NilPointerDereference
    \<and> getSectorCollateral e (SectorNumber s) tok = Inl ''precommit info not found on chain''"
  using assms by (simp add: getCommitCutoff_def AddCommit_enqueue_def getSectorCollateral_def)

theorem getCommitCutoff_nil_precommit_info_witness:
  "getCommitCutoff (ex_env\<lparr>StateSectorPreCommitInfo := (\<lambda>sn tok. Inr None)\<rparr>) 5000 (ex_sector 7 [])
      = Inl NilPointerDereference
    \<and> AddCommit_enqueue (ex_env\<lparr>StateSectorPreCommitInfo := (\<lambda>sn tok. Inr None)\<rparr>) 5000
        (ex_sector 7 []) (ex_input 7) NewCommitBatcher = Inl NilPointerDereference
    \<and> getSectorCollateral (ex_env\<lparr>StateSectorPreCommitInfo := (\<lambda>sn tok. Inr None)\<rparr>) 7 []
      = Inl ''precommit info not found on chain''"
proof -
  let ?e = "ex_env\<lparr>StateSectorPreCommitInfo := (\<lambda>sn tok. Inr None)\<rparr>"
  have h1: "ChainHead ?e = Inr ([], 120)" by (simp add: ex_env_def)
  have h2: "StateNetworkVersion ?e [] = Inr 13" by (simp add: ex_env_def)
  have h3: "StateSectorPreCommitInfo ?e (SectorNumber (ex_sector 7 [])) [] = Inr None"
    by (simp add: ex_env_def)
  show ?thesis
    using getCommitCutoff_nil_precommit_info [OF h1 h2 h3, of 5000 "ex_input 7" NewCommitBatcher]
    by (simp add: ex_sector_def)
qed

section \<open>The timer gate\<close>

lemma min0_Nil: "min0 [] = 0"
  by (simp add: min0_def)

lemma min0_zero_Cons: "min0 (0 # ts) = min0 ts"
  by (simp add: min0_def)

lemma min0_single: "min0 [c] = c"
  by (simp add: min0_def)

lemma min0_nonzero_Cons:
  "c \<noteq> 0 \<Longrightarrow> min0 (c # ts) = Min (insert c (set (filter (\<lambda>t. t \<noteq> 0) ts)))"
  by (simp add: min0_def)

lemma min0_drop_second:
  assumes "c \<noteq> 0" "t = 0 \<or> c \<le> t"
  shows "min0 (c # t # ts) = min0 (c # ts)"
proof (cases "t = 0")
  case True
  then show ?thesis using assms(1) by (simp add: min0_nonzero_Cons)
next
  case False
  then have "c \<le> t" using assms(2) by simp
  then have "Min (insert c (insert t (set (filter (\<lambda>t. t \<noteq> 0) ts))))
      = Min (insert c (set (filter (\<lambda>t. t \<noteq> 0) ts)))"
    by (intro Min_insert_le) simp_all
  then show ?thesis using assms(1) False by (simp add: min0_nonzero_Cons)
qed

lemma min0_drop_first:
  assumes "c = 0 \<or> (t \<noteq> 0 \<and> t < c)"
  shows "min0 (c # t # ts) = min0 (t # ts)"
proof (cases "c = 0")
  case True
  then show ?thesis by (simp add: min0_zero_Cons)
next
  case False
  then have t: "t \<noteq> 0" "t < c" using assms by simp_all
  then have "Min (insert c (insert t (set (filter (\<lambda>t. t \<noteq> 0) ts))))
      = Min (insert t (set (filter (\<lambda>t. t \<noteq> 0) ts)))"
    by (intro Min_insert_gt) simp_all
  then show ?thesis using False t by (simp add: min0_nonzero_Cons)
qed

lemma scan_cutoff_min0: "scan_cutoff cs c sns = min0 (c # map (cutoff_at cs) sns)"
proof (induction sns arbitrary: c)
  case Nil
  then show ?case by (simp add: min0_single)
next
  case (Cons sn sns)
  let ?t = "cutoff_at cs sn"
  show ?case
  proof (cases "c = 0 \<or> (?t \<noteq> 0 \<and> ?t < c)")
    case True
    then have "scan_cutoff cs c (sn # sns) = scan_cutoff cs ?t sns" by (simp add: Let_def)
    also have "\<dots> = min0 (?t # map (cutoff_at cs) sns)" by (rule Cons.IH)
    also have "\<dots> = min0 (c # ?t # map (cutoff_at cs) sns)"
      using min0_drop_first [OF True] by simp
    finally show ?thesis by simp
  next
    case False
    then have c: "c \<noteq> 0" "?t = 0 \<or> c \<le> ?t" by auto
    from c have "scan_cutoff cs c (sn # sns) = scan_cutoff cs c sns" by (auto simp: Let_def)
    also have "\<dots> = min0 (c # map (cutoff_at cs) sns)" by (rule Cons.IH)
    also have "\<dots> = min0 (c # ?t # map (cutoff_at cs) sns)"
      using min0_drop_second [OF c] by simp
    finally show ?thesis by simp
  qed
qed

lemma min0_eq_0_iff: "min0 ts = 0 \<longleftrightarrow> filter (\<lambda>t. t \<noteq> 0) ts = []"
proof (cases "filter (\<lambda>t. t \<noteq> 0) ts = []")
  case True
  then show ?thesis by (simp add: min0_def)
next
  case False
  then have "Min (set (filter (\<lambda>t. t \<noteq> 0) ts)) \<in> set (filter (\<lambda>t. t \<noteq> 0) ts)"
    by (intro Min_in) (auto simp: filter_empty_conv)
  then have "Min (set (filter (\<lambda>t. t \<noteq> 0) ts)) \<noteq> 0" by auto
  then show ?thesis using False by (simp add: min0_def)
qed

lemma min0_min0_Cons: "min0 (min0 xs # ys) = min0 (xs @ ys)"
proof (cases "filter (\<lambda>t. t \<noteq> 0) xs = []")
  case True
  then have "min0 xs = 0" by (simp add: min0_def)
  then show ?thesis using True by (simp add: min0_def)
next
  case False
  let ?X = "set (filter (\<lambda>t. t \<noteq> 0) xs)" and ?Y = "set (filter (\<lambda>t. t \<noteq> 0) ys)"
  have nz: "min0 xs \<noteq> 0" using False by (simp add: min0_eq_0_iff)
  have mx: "min0 xs = Min ?X" using False by (simp add: min0_def)
  have X: "finite ?X" "?X \<noteq> {}" using False by (auto simp: filter_empty_conv)
  have "Min (insert (Min ?X) ?Y) = Min (?X \<union> ?Y)"
  proof (cases "?Y = {}")
    case True
    then show ?thesis by simp
  next
    case Yne: False
    have "Min (insert (Min ?X) ?Y) = min (Min ?X) (Min ?Y)"
      by (rule Min_insert) (use Yne in auto)
    moreover have "Min (?X \<union> ?Y) = min (Min ?X) (Min ?Y)"
      by (rule Min_Un) (use X Yne in auto)
    ultimately show ?thesis by simp
  qed
  then show ?thesis using nz mx False by (simp add: min0_def)
qed

lemma scan_twice:
  "scan_cutoff cs (scan_cutoff cs 0 xs) ys = min0 (map (cutoff_at cs) (xs @ ys))"
  by (simp add: scan_cutoff_min0 min0_zero_Cons min0_min0_Cons)

lemma min_cutoff_spec_min0:
  "min_cutoff_spec b =
    (let c = min0 (map (cutoff_at (cutoffs b)) (map fst (todo b) @ map fst (waiting b)))
     in if c = 0 then None else Some c)"
  by (simp add: min_cutoff_spec_def Let_def min0_eq_0_iff) (simp add: min0_def)

lemma sint_lt_2_63: "sint (w :: 64 word) < 2 ^ 63"
  using sint_lt [of w] by simp

lemma sint_capped_wait:
  assumes "now \<le> t"
  shows "sint (if maxWait <s Time_Sub t now then maxWait else Time_Sub t now)
       = min (t - now) (sint maxWait)"
proof (cases "2 ^ 63 - 1 < t - now")
  case True
  then have w: "sint (Time_Sub t now) = 2 ^ 63 - 1"
    using assms by (simp add: Time_Sub_def)
  show ?thesis using w True sint_lt_2_63 [of maxWait] by (simp add: word_sless_alt min_def)
next
  case False
  then have "Time_Sub t now = word_of_int (t - now)" using assms by (simp add: Time_Sub_def)
  moreover have "sint (word_of_int (t - now) :: 64 word) = t - now"
    using False assms by (simp only: sint_word_of_int64) (simp add: int64_id)
  ultimately show ?thesis by (simp add: word_sless_alt min_def)
qed

text \<open>Negating the slack is exact unless the slack is the least duration.\<close>

lemma int64_neg_slack:
  assumes "sint (slack :: Duration) \<noteq> - (2 ^ 63)"
  shows "int64 (- sint slack) = - sint slack"
proof -
  have "- (2 ^ 63) \<le> sint slack" using sint_ge [of slack] by simp
  moreover have "sint slack < 2 ^ 63" by (rule sint_lt_2_63)
  ultimately show ?thesis using assms by (intro int64_id) simp_all
qed

text \<open>
  Claim C9. For every state of the maps and every \<open>maxWait\<close> and \<open>slack\<close>, the timer
  gate returns no timer when \<open>todo\<close> is empty; fires after \<open>maxWait\<close> when no sector
  of \<open>todo\<close> or \<open>waiting\<close> has a non-zero cutoff; and otherwise aims at the least
  non-zero cutoff minus the slack: a target before now gives a delay of one nanosecond,
  any other target the time left until it, capped at \<open>maxWait\<close>. The subtraction of the
  slack is Go's \<^verbatim>\<open>Add(-slack)\<close> (exact by \<open>int64_neg_slack\<close>); the saturation of
  \<^verbatim>\<open>Time.Sub\<close> never shows, since \<open>maxWait\<close> is itself a duration.
\<close>

theorem batchWait_spec_eq:
  "timer_fire (batchWait now maxWait slack b) = batchWait_spec now (sint maxWait) (sint slack) b"
proof (cases "todo b = []")
  case True
  then show ?thesis by (simp add: batchWait_def batchWait_spec_def)
next
  case False
  let ?c = "min0 (map (cutoff_at (cutoffs b)) (map fst (todo b) @ map fst (waiting b)))"
  have scan: "scan_cutoff (cutoffs b) (scan_cutoff (cutoffs b) 0 (map fst (todo b)))
      (map fst (waiting b)) = ?c"
    by (rule scan_twice)
  show ?thesis
  proof (cases "?c = 0")
    case True
    have bw: "batchWait now maxWait slack b = After maxWait"
      unfolding batchWait_def Let_def scan using False True by simp
    have sp: "batchWait_spec now (sint maxWait) (sint slack) b = FireAfter (sint maxWait)"
      unfolding batchWait_spec_def min_cutoff_spec_min0 Let_def using False True by simp
    show ?thesis by (simp only: bw sp timer_fire.simps)
  next
    case nz: False
    let ?target = "?c + int64 (- sint slack)"
    show ?thesis
    proof (cases "?target < now")
      case True
      have bw: "batchWait now maxWait slack b = After 1"
        unfolding batchWait_def Let_def scan sint_neg64 using False nz True by simp
      have sp: "batchWait_spec now (sint maxWait) (sint slack) b = FireAfter 1"
        unfolding batchWait_spec_def min_cutoff_spec_min0 Let_def using False nz True by simp
      show ?thesis by (simp add: bw sp)
    next
      case ge: False
      let ?w = "Time_Sub ?target now"
      have d: "now \<le> ?target" using ge by simp
      have W: "sint (if maxWait <s ?w then maxWait else ?w) = min (?target - now) (sint maxWait)"
        by (rule sint_capped_wait [OF d])
      have bw: "batchWait now maxWait slack b = After (if maxWait <s ?w then maxWait else ?w)"
        unfolding batchWait_def Let_def scan sint_neg64 using False nz ge by simp
      have sp: "batchWait_spec now (sint maxWait) (sint slack) b
          = FireAfter (min (?target - now) (sint maxWait))"
        unfolding batchWait_spec_def min_cutoff_spec_min0 Let_def using False nz ge by simp
      show ?thesis by (simp only: bw sp timer_fire.simps W)
    qed
  qed
qed

section \<open>The gate of batch close\<close>

text \<open>
  Claim C6. With the configuration that \<^verbatim>\<open>maybeStartBatch\<close> reads, the gate is the
  one of section 4.6 for every \<open>todo\<close> and every pair of flags: nothing is done when
  \<open>todo\<close> is empty, when \<open>aboveMax\<close> is set and \<open>todo\<close> is smaller than
  \<open>MaxCommitBatch\<close>, or when \<open>aboveMin\<close> is set and \<open>todo\<close> is smaller than
  \<open>MinCommitBatch\<close>; otherwise the individual path runs exactly when \<open>todo\<close> is
  smaller than \<open>MinCommitBatch\<close> or than \<open>MinAggregatedSectors\<close>, and the aggregate
  path otherwise. An empty \<open>todo\<close> returns before the configuration is read; in the
  other cases the read is counted.
\<close>

theorem maybeStartBatch_gate:
  assumes "todo b = [] \<or> getConfig e (cfg_reads b) = Inr c"
  shows "maybeStartBatch e aboveMax aboveMin b =
    (case gate_spec (MinAggregatedSectors e) c aboveMax aboveMin (length (todo b)) of
      GateEmpty \<Rightarrow>
        Inr (([], None), if todo b = [] then b else b\<lparr>cfg_reads := cfg_reads b + 1\<rparr>)
    | GateIndividual \<Rightarrow> finish_batch (processIndividually e (b\<lparr>cfg_reads := cfg_reads b + 1\<rparr>))
    | GateAggregate \<Rightarrow> finish_batch (processBatch e c (b\<lparr>cfg_reads := cfg_reads b + 1\<rparr>)))"
  using assms by (auto simp: maybeStartBatch_def gate_spec_def Let_def)

theorem maybeStartBatch_gate_witness:
  "maybeStartBatch ex_env True False (ex_batcher [(5, 0)])
    = Inr (([], None), (ex_batcher [(5, 0)])\<lparr>cfg_reads := 1\<rparr>)"
proof -
  have h: "todo (ex_batcher [(5, 0)]) = []
      \<or> getConfig ex_env (cfg_reads (ex_batcher [(5, 0)])) = Inr ex_cfg"
    by (simp add: ex_env_def)
  show ?thesis
    using maybeStartBatch_gate [OF h, of True False]
    by (simp add: gate_spec_def ex_cfg_def ex_env_def ex_batcher_def NewCommitBatcher_def)
qed

section \<open>AddCommit and the cutoff of a sector\<close>

lemma map_of_update_same: "map_of (AList.update k v al) k = Some v"
  by (simp add: update_conv')

text \<open>
  Claim C4, as the code has it. Every \<^verbatim>\<open>AddCommit\<close> whose deadline computation
  succeeds stores the deadline it has just computed as the cutoff of its sector, whatever
  cutoff the sector had before: a second \<^verbatim>\<open>AddCommit\<close> for a sector overwrites the
  cutoff of the first.
\<close>

theorem AddCommit_overwrites_cutoff:
  assumes "getCommitCutoff e now s = Inr (cu, None)"
  shows "\<exists>b'. AddCommit_enqueue e now s inp b = Inr (Inr (chans b, b'))
    \<and> cutoff_at (cutoffs b') (SectorNumber s) = cu"
  using assms by (simp add: AddCommit_enqueue_def Let_def cutoff_at_def map_of_update_same)

theorem AddCommit_overwrites_cutoff_witness:
  "\<exists>b'. AddCommit_enqueue ex_env 9000 (ex_sector 7 []) (ex_input 7)
          (ex_batcher [(7, 29400000005000)]) = Inr (Inr (1, b'))
    \<and> cutoff_at (cutoffs b') 7 = 29400000009000"
proof -
  have h: "getCommitCutoff ex_env 9000 (ex_sector 7 []) = Inr (29400000009000, None)"
    by (simp add: getCommitCutoff_def ex_env_def ex_sector_def ex_pci_def)
  show ?thesis
    using AddCommit_overwrites_cutoff [OF h, of "ex_input 7" "ex_batcher [(7, 29400000005000)]"]
    by (simp add: ex_sector_def ex_batcher_def NewCommitBatcher_def)
qed

text \<open>
  The claim as the specification states it fails. Sector \<open>7\<close> is added at instant
  \<open>5000\<close> and again at instant \<open>9000\<close>, the chain head still at epoch \<open>120\<close>: the
  stored cutoff moves from \<open>29400000005000\<close> up to \<open>29400000009000\<close>.
\<close>

theorem AddCommit_cutoff_counterexample:
  "AddCommit_enqueue ex_env 5000 (ex_sector 7 []) (ex_input 7) NewCommitBatcher
     = Inr (Inr (0, (ex_batcher [(7, 29400000005000)])\<lparr>notify := True\<rparr>))
  \<and> AddCommit_enqueue ex_env 9000 (ex_sector 7 []) (ex_input 7)
       ((ex_batcher [(7, 29400000005000)])\<lparr>notify := True\<rparr>)
     = Inr (Inr (1, (ex_batcher [(7, 29400000009000)])
                      \<lparr>waiting := [(7, [0, 1])], notify := True, chans := 2\<rparr>))
  \<and> cutoff_at (cutoffs (ex_batcher [(7, 29400000005000)])) 7 = 29400000005000
  \<and> cutoff_at (cutoffs (ex_batcher [(7, 29400000009000)])) 7 = 29400000009000"
  by (simp add: AddCommit_enqueue_def getCommitCutoff_def ex_env_def ex_sector_def ex_pci_def
      ex_batcher_def NewCommitBatcher_def cutoff_at_def waiting_at_def Let_def)

section \<open>What batch close changes in the state\<close>

text \<open>The notification touches only the three maps and the delivered values.\<close>

lemma same_outside_refl: "same_outside b b"
  by (simp add: same_outside_def)

lemma same_outside_trans: "same_outside a b \<Longrightarrow> same_outside b c \<Longrightarrow> same_outside a c"
  by (simp add: same_outside_def)

lemma notify_sector_same: "same_outside b (notify_sector r sn b)"
  by (simp add: same_outside_def notify_sector_def)

lemma fold_notify_sector_same: "same_outside b (fold (notify_sector r) sns b)"
proof (induction sns arbitrary: b)
  case Nil
  show ?case by (simp add: same_outside_refl)
next
  case (Cons sn sns)
  show ?case
    using same_outside_trans [OF notify_sector_same Cons.IH] by simp
qed

lemma notify_results_same: "same_outside b (notify_results err res b)"
proof (induction res arbitrary: b)
  case Nil
  show ?case by (simp add: same_outside_refl)
next
  case (Cons r rs)
  show ?case
    using same_outside_trans [OF fold_notify_sector_same Cons.IH] by (simp add: Let_def)
qed

lemma processSingle_sent:
  "\<exists>ms. snd (processSingle e mi sn inp tok b) = b\<lparr>sent := sent b @ ms\<rparr>
     \<and> (\<forall>m \<in> set ms. msg_method m = ProveCommitSector)"
proof (cases "snd (processSingle e mi sn inp tok b) = b")
  case True
  then have "snd (processSingle e mi sn inp tok b) = b\<lparr>sent := sent b @ []\<rparr>
      \<and> (\<forall>m \<in> set []. msg_method m = ProveCommitSector)" by simp
  then show ?thesis by blast
next
  case False
  then obtain m where "snd (processSingle e mi sn inp tok b) = b\<lparr>sent := sent b @ [m]\<rparr>"
    "msg_method m = ProveCommitSector"
    by (auto simp: processSingle_def Let_def split: sum.splits)
  then have "snd (processSingle e mi sn inp tok b) = b\<lparr>sent := sent b @ [m]\<rparr>
      \<and> (\<forall>m \<in> set [m]. msg_method m = ProveCommitSector)" by simp
  then show ?thesis by blast
qed

lemma individually_loop_sent:
  "individually_loop e mi tok xs res b = Inr (res', b') \<Longrightarrow>
    \<exists>ms. b' = b\<lparr>sent := sent b @ ms\<rparr> \<and> (\<forall>m \<in> set ms. msg_method m = ProveCommitSector)"
proof (induction xs arbitrary: res b)
  case Nil
  then have "b' = b\<lparr>sent := sent b @ []\<rparr> \<and> (\<forall>m \<in> set []. msg_method m = ProveCommitSector)"
    by simp
  then show ?case by blast
next
  case (Cons x xs)
  obtain sn inp where x: "x = (sn, inp)" by (cases x)
  obtain o1 b1 where ps: "processSingle e mi sn inp tok b = (o1, b1)"
    by (cases "processSingle e mi sn inp tok b")
  obtain ms1 where b1: "b1 = b\<lparr>sent := sent b @ ms1\<rparr>"
    and m1: "\<forall>m \<in> set ms1. msg_method m = ProveCommitSector"
    using processSingle_sent [of e mi sn inp tok b] ps by auto
  from Cons.prems x ps obtain res1 where "individually_loop e mi tok xs res1 b1 = Inr (res', b')"
    by (auto simp: Let_def set_failed_def split: sum.splits)
  from Cons.IH [OF this] obtain ms2 where b2: "b' = b1\<lparr>sent := sent b1 @ ms2\<rparr>"
    and m2: "\<forall>m \<in> set ms2. msg_method m = ProveCommitSector" by blast
  have "b' = b\<lparr>sent := sent b @ (ms1 @ ms2)\<rparr>
      \<and> (\<forall>m \<in> set (ms1 @ ms2). msg_method m = ProveCommitSector)"
    using b1 b2 m1 m2 by auto
  then show ?case by blast
qed

lemma processIndividually_sent:
  "processIndividually e b = Inr (r, b') \<Longrightarrow>
    \<exists>ms. b' = b\<lparr>sent := sent b @ ms\<rparr> \<and> (\<forall>m \<in> set ms. msg_method m = ProveCommitSector)"
proof -
  assume a: "processIndividually e b = Inr (r, b')"
  show ?thesis
  proof (cases "b' = b")
    case True
    then have "b' = b\<lparr>sent := sent b @ []\<rparr> \<and> (\<forall>m \<in> set []. msg_method m = ProveCommitSector)"
      by simp
    then show ?thesis by blast
  next
    case False
    with a obtain mi tok res' where "individually_loop e mi tok (todo b) [] b = Inr (res', b')"
      by (auto simp: processIndividually_def split: sum.splits prod.splits)
    then show ?thesis by (rule individually_loop_sent)
  qed
qed

text \<open>Whether a sector's message goes out does not depend on the state.\<close>

lemma processSingle_fst:
  "fst (processSingle e mi sn inp tok b) = fst (processSingle e mi sn inp tok b0)"
  by (simp add: processSingle_def Let_def split: sum.splits)

lemma processSingle_ok:
  assumes "fst (processSingle e mi sn inp tok b) = Inr mcid"
  shows "\<exists>m. snd (processSingle e mi sn inp tok b) = b\<lparr>sent := sent b @ [m]\<rparr>
    \<and> msg_kind m = single_kind (sn, inp)"
  using assms
  by (auto simp: processSingle_def msg_kind_def single_kind_def Let_def split: sum.splits)

lemma single_ok_iff:
  "single_ok e mi tok (sn, inp) \<longleftrightarrow> (\<exists>mcid. fst (processSingle e mi sn inp tok b) = Inr mcid)"
  using processSingle_fst [of e mi sn inp tok b NewCommitBatcher]
  by (auto simp: single_ok_def split: sum.splits)

text \<open>When every sector is submitted without error, the loop sends one message each.\<close>

lemma individually_loop_ok:
  assumes "list_all (single_ok e mi tok) xs"
  shows "\<exists>res' ms. individually_loop e mi tok xs res b = Inr (res', b\<lparr>sent := sent b @ ms\<rparr>)
    \<and> map msg_kind ms = map single_kind xs"
  using assms
proof (induction xs arbitrary: res b)
  case Nil
  have "individually_loop e mi tok [] res b = Inr (res, b\<lparr>sent := sent b @ []\<rparr>)
      \<and> map msg_kind [] = map single_kind []" by simp
  then show ?case by blast
next
  case (Cons x xs)
  obtain sn inp where x: "x = (sn, inp)" by (cases x)
  from Cons.prems x have ok: "single_ok e mi tok (sn, inp)" and rest: "list_all (single_ok e mi tok) xs"
    by simp_all
  from ok obtain mcid where f: "fst (processSingle e mi sn inp tok b) = Inr mcid"
    using single_ok_iff [of e mi tok sn inp b] by blast
  from processSingle_ok [OF f] obtain m
    where s: "snd (processSingle e mi sn inp tok b) = b\<lparr>sent := sent b @ [m]\<rparr>"
      and k: "msg_kind m = single_kind (sn, inp)" by blast
  let ?b1 = "b\<lparr>sent := sent b @ [m]\<rparr>"
  let ?r = "\<lparr>Sectors = [sn], FailedSectors = None, Msg = Some mcid, Error = []\<rparr>"
  have ps: "processSingle e mi sn inp tok b = (Inr mcid, ?b1)"
    using f s by (cases "processSingle e mi sn inp tok b") simp
  have step: "individually_loop e mi tok (x # xs) res b
      = individually_loop e mi tok xs (res @ [?r]) ?b1"
    using x ps by (simp add: Let_def)
  from Cons.IH [OF rest, of "res @ [?r]" ?b1] obtain res' ms
    where l: "individually_loop e mi tok xs (res @ [?r]) ?b1 = Inr (res', ?b1\<lparr>sent := sent ?b1 @ ms\<rparr>)"
      and ks: "map msg_kind ms = map single_kind xs" by blast
  have "individually_loop e mi tok (x # xs) res b = Inr (res', b\<lparr>sent := sent b @ (m # ms)\<rparr>)
      \<and> map msg_kind (m # ms) = map single_kind (x # xs)"
    using step l ks k x by simp
  then show ?case by blast
qed

section \<open>The first loop of the aggregate path\<close>

lemma select_sector_cases:
  assumes "select_sector e tok sid p st = Inr st1"
  shows "(c_infos st1 = c_infos st \<and> c_SectorNumbers st1 = c_SectorNumbers st)
    \<or> (c_infos st1 = c_infos st @ [info p]
        \<and> c_SectorNumbers st1 = List.insert sid (c_SectorNumbers st))"
  using assms
  by (auto simp: select_sector_def set_failed_def Let_def split: sum.splits option.splits)

lemma collect_Cons_Inr:
  assumes "collect e cf tok ((sid, p) # rest) st = Inr st'"
    and "\<not> MaxCommitBatch cf \<le> int (length (c_infos st))"
  obtains st1 where "select_sector e tok sid p st = Inr st1" "collect e cf tok rest st1 = Inr st'"
  using assms by (auto split: sum.splits)

text \<open>
  The loop never collects more infos than \<open>MaxCommitBatch\<close>, nor more than there are
  entries, whether or not a collateral lookup fails.
\<close>

lemma collect_upper:
  assumes "collect e cf tok xs st = Inr st'"
  shows "int (length (c_infos st')) \<le> max (MaxCommitBatch cf) (int (length (c_infos st)))
    \<and> length (c_infos st') \<le> length (c_infos st) + length xs"
  using assms
proof (induction xs arbitrary: st)
  case Nil
  then show ?case by simp
next
  case (Cons x xs)
  obtain sid p where x: "x = (sid, p)" by (cases x)
  show ?case
  proof (cases "MaxCommitBatch cf \<le> int (length (c_infos st))")
    case True
    then show ?thesis using Cons.prems x by simp
  next
    case False
    from Cons.prems x have c: "collect e cf tok ((sid, p) # xs) st = Inr st'" by simp
    from collect_Cons_Inr [OF c False] obtain st1
      where sel: "select_sector e tok sid p st = Inr st1"
        and step: "collect e cf tok xs st1 = Inr st'"
      by blast
    from select_sector_cases [OF sel]
    have l: "length (c_infos st1) \<le> length (c_infos st) + 1" by auto
    with False have "int (length (c_infos st1)) \<le> MaxCommitBatch cf" by simp
    with Cons.IH [OF step] l show ?thesis by auto
  qed
qed

text \<open>
  The bitfield holds no more numbers than there are infos, holds one as soon as there is
  an info, and holds only keys of the map.
\<close>

lemma collect_bits:
  assumes "length (c_SectorNumbers st) \<le> length (c_infos st)"
    and "c_infos st \<noteq> [] \<longrightarrow> c_SectorNumbers st \<noteq> []"
    and "collect e cf tok xs st = Inr st'"
  shows "length (c_SectorNumbers st') \<le> length (c_infos st')
    \<and> (c_infos st' \<noteq> [] \<longrightarrow> c_SectorNumbers st' \<noteq> [])
    \<and> set (c_SectorNumbers st') \<subseteq> set (c_SectorNumbers st) \<union> fst ` set xs"
  using assms
proof (induction xs arbitrary: st)
  case Nil
  then show ?case by simp
next
  case (Cons x xs)
  obtain sid p where x: "x = (sid, p)" by (cases x)
  show ?case
  proof (cases "MaxCommitBatch cf \<le> int (length (c_infos st))")
    case True
    then show ?thesis using Cons.prems x by auto
  next
    case False
    from Cons.prems(3) x have c: "collect e cf tok ((sid, p) # xs) st = Inr st'" by simp
    from collect_Cons_Inr [OF c False] obtain st1
      where sel: "select_sector e tok sid p st = Inr st1"
        and step: "collect e cf tok xs st1 = Inr st'"
      by blast
    from select_sector_cases [OF sel] Cons.prems(1,2)
    have 1: "length (c_SectorNumbers st1) \<le> length (c_infos st1)"
      and 2: "c_infos st1 \<noteq> [] \<longrightarrow> c_SectorNumbers st1 \<noteq> []"
      and 3: "set (c_SectorNumbers st1) \<subseteq> insert sid (set (c_SectorNumbers st))"
      by (auto simp: List.insert_def split: if_splits)
    from Cons.IH [OF 1 2 step] 3 x show ?thesis by auto
  qed
qed


lemma assemble_Inr:
  assumes "assemble e cf tok b = Inr a"
  obtains st where "collect e cf tok (todo b) collected_init = Inr st"
    and "a_collected a = st" and "a_infos a = sort_infos (c_infos st)"
    and "a_proofs a = map (\<lambda>i. proof' (todo_at (todo b) (Number i))) (a_infos a)"
  using assms by (auto simp: assemble_def Let_def split: sum.splits)

lemma length_sort_infos: "length (sort_infos xs) = length xs"
  by (simp add: sort_infos_def)

text \<open>
  What \<^verbatim>\<open>processBatch\<close> leaves in the state: nothing; or the one call of the prover;
  or that call and one aggregate message.
\<close>

lemma processBatch_frame:
  assumes "processBatch e cf b = Inr (r, b')"
  shows "b' = b \<or>
    (\<exists>tok ep a mid i0 rest. ChainHead e = Inr (tok, ep) \<and> assemble e cf tok b = Inr a
       \<and> IDFromAddress e = Inr mid \<and> a_infos a = i0 # rest
       \<and> (b' = b\<lparr>proved := proved b @
                [(\<lparr>Miner = mid, SealProof = spt (todo_at (todo b) (Number i0)),
                   Infos = a_infos a\<rparr>, a_proofs a)]\<rparr>
          \<or> (\<exists>m. b' = b\<lparr>proved := proved b @
                   [(\<lparr>Miner = mid, SealProof = spt (todo_at (todo b) (Number i0)),
                      Infos = a_infos a\<rparr>, a_proofs a)],
                 sent := sent b @ [m]\<rparr>
              \<and> msg_method m = ProveCommitAggregate
              \<and> SectorNumbers (msg_params m) = c_SectorNumbers (a_collected a))))"
  using assms
  by (auto simp: processBatch_def Let_def split: sum.splits prod.splits list.splits)

text \<open>
  An aggregate message carries at least one and at most \<open>MaxCommitBatch\<close> sectors, no
  more than are pending, all of them keys of \<open>todo\<close>.
\<close>

lemma processBatch_size:
  assumes "processBatch e cf b = Inr (r, b')"
  shows "\<exists>ms. sent b' = sent b @ ms \<and> cfg_reads b' = cfg_reads b \<and> stop b' = stop b
    \<and> (\<forall>m \<in> set ms. msg_method m = ProveCommitAggregate
          \<and> 1 \<le> length (SectorNumbers (msg_params m))
          \<and> int (length (SectorNumbers (msg_params m))) \<le> MaxCommitBatch cf
          \<and> length (SectorNumbers (msg_params m)) \<le> length (todo b)
          \<and> set (SectorNumbers (msg_params m)) \<subseteq> fst ` set (todo b))"
proof -
  let ?P = "\<lambda>ms. sent b' = sent b @ ms \<and> cfg_reads b' = cfg_reads b \<and> stop b' = stop b
    \<and> (\<forall>m \<in> set ms. msg_method m = ProveCommitAggregate
          \<and> 1 \<le> length (SectorNumbers (msg_params m))
          \<and> int (length (SectorNumbers (msg_params m))) \<le> MaxCommitBatch cf
          \<and> length (SectorNumbers (msg_params m)) \<le> length (todo b)
          \<and> set (SectorNumbers (msg_params m)) \<subseteq> fst ` set (todo b))"
  from processBatch_frame [OF assms]
  consider (none) "sent b' = sent b" "cfg_reads b' = cfg_reads b" "stop b' = stop b"
    | (msg) tok a m i0 rest where "assemble e cf tok b = Inr a" "a_infos a = i0 # rest"
        "sent b' = sent b @ [m]" "cfg_reads b' = cfg_reads b" "stop b' = stop b"
        "msg_method m = ProveCommitAggregate"
        "SectorNumbers (msg_params m) = c_SectorNumbers (a_collected a)"
    by auto
  then have "\<exists>ms. ?P ms"
  proof cases
    case none
    then have "?P []" by simp
    then show ?thesis by blast
  next
    case msg
    from msg(1) obtain st where st: "collect e cf tok (todo b) collected_init = Inr st"
      and ac: "a_collected a = st" and ai: "a_infos a = sort_infos (c_infos st)"
      by (rule assemble_Inr)
    have ne: "c_infos st \<noteq> []"
      using msg(2) ai length_sort_infos [of "c_infos st"] by (cases "c_infos st") auto
    from collect_upper [OF st]
    have up: "int (length (c_infos st)) \<le> max (MaxCommitBatch cf) 0"
      and up2: "length (c_infos st) \<le> length (todo b)"
      by (simp_all add: collected_init_def)
    from collect_bits [OF _ _ st]
    have le: "length (c_SectorNumbers st) \<le> length (c_infos st)"
      and ne2: "c_infos st \<noteq> [] \<longrightarrow> c_SectorNumbers st \<noteq> []"
      and sub: "set (c_SectorNumbers st) \<subseteq> fst ` set (todo b)"
      by (simp_all add: collected_init_def)
    from ne ne2 have pos: "1 \<le> length (c_SectorNumbers st)"
      by (cases "c_SectorNumbers st") auto
    from pos le up have mx: "int (length (c_SectorNumbers st)) \<le> MaxCommitBatch cf" by auto
    from le up2 have n: "length (c_SectorNumbers st) \<le> length (todo b)" by simp
    have "?P [m]" using msg(3-7) ac pos mx n sub by simp
    then show ?thesis by blast
  qed
  then show ?thesis .
qed

lemma finish_batch_Inr:
  assumes "finish_batch pr = Inr (r, b')"
  obtains res err b2 where "pr = Inr ((res, err), b2)" and "same_outside b2 b'"
  using assms
  by (auto simp: finish_batch_def same_outside_refl notify_results_same
      split: sum.splits prod.splits if_splits)

lemma same_outside_sent: "same_outside b b' \<Longrightarrow> sent b' = sent b"
  by (simp add: same_outside_def)

lemma same_outside_cfg_reads: "same_outside b b' \<Longrightarrow> cfg_reads b' = cfg_reads b"
  by (simp add: same_outside_def)

lemma same_outside_stop: "same_outside b b' \<Longrightarrow> stop b' = stop b"
  by (simp add: same_outside_def)

lemma same_outside_proved: "same_outside b b' \<Longrightarrow> proved b' = proved b"
  by (simp add: same_outside_def)

text \<open>The definitions that a run on the example miner unfolds.\<close>

lemmas ex_eval =
  maybeStartBatch_def processBatch_def processIndividually_def processSingle_def
  assemble_def select_sector_def getSectorCollateral_def sort_infos_def
  todo_at_def waiting_at_def notify_sector_def finish_batch_def run_batch_def run_iter_def
  run_start_def set_failed_def collected_init_def
  ex_env_def ex_cfg_def ex_pci_def ex_input_def ex_batcher_def NewCommitBatcher_def
  ex_aggregate_msg_def ex_aggregate_res_def ex_single_msg_def ex_single_res_def Let_def

lemma ex_collateral [simp]: "getSectorCollateral ex_env sn [] = Inr 15"
  by (simp add: getSectorCollateral_def ex_env_def ex_pci_def)

section \<open>Size of an aggregate\<close>

lemma processIndividually_ok:
  assumes "StateMinerInfo e = Inr mi" and "ChainHead e = Inr (tok, ep)"
    and "list_all (single_ok e mi tok) (todo b)"
  shows "\<exists>res ms. processIndividually e b = Inr ((res, None), b\<lparr>sent := sent b @ ms\<rparr>)
    \<and> map msg_kind ms = map single_kind (todo b)"
proof -
  from individually_loop_ok [OF assms(3), of "[]" b] obtain res ms
    where "individually_loop e mi tok (todo b) [] b = Inr (res, b\<lparr>sent := sent b @ ms\<rparr>)"
      and "map msg_kind ms = map single_kind (todo b)" by blast
  then have "processIndividually e b = Inr ((res, None), b\<lparr>sent := sent b @ ms\<rparr>)
      \<and> map msg_kind ms = map single_kind (todo b)"
    using assms(1,2) by (simp add: processIndividually_def)
  then show ?thesis by blast
qed

text \<open>
  Claim C5, as the code has it. Let batch close run on a \<open>todo\<close> map of \<open>n\<close>
  sectors with the configuration it reads. First, every aggregate message it sends
  carries at least one and at most \<open>MaxCommitBatch\<close> sectors, all of them pending, and
  is sent only when \<open>n\<close> is at least \<open>max MinCommitBatch MinAggregatedSectors\<close>; the
  message itself may carry fewer sectors than that bound. Whenever \<open>n\<close> is below
  \<open>MinCommitBatch\<close> or below \<open>MinAggregatedSectors\<close>, no aggregate is sent. Second,
  when \<open>n\<close> is below one of the two minima and the gate lets batch close go ahead
  (\<open>todo\<close> is not empty, and neither the test of \<open>aboveMax\<close> nor the test of
  \<open>aboveMin\<close> holds it back), batch close returns and has sent per-sector messages
  instead of an aggregate: one \<^verbatim>\<open>ProveCommitSector\<close> message for each pending sector,
  provided the lookups and the submission of every sector succeed.
\<close>

theorem aggregate_message_size:
  assumes "getConfig e (cfg_reads b) = Inr c"
  shows "(maybeStartBatch e aboveMax aboveMin b = Inr (r, b') \<longrightarrow>
      (\<exists>ms. sent b' = sent b @ ms
        \<and> (\<forall>m \<in> set ms. msg_method m = ProveCommitAggregate \<longrightarrow>
              1 \<le> length (SectorNumbers (msg_params m))
              \<and> int (length (SectorNumbers (msg_params m))) \<le> MaxCommitBatch c
              \<and> length (SectorNumbers (msg_params m)) \<le> length (todo b)
              \<and> set (SectorNumbers (msg_params m)) \<subseteq> fst ` set (todo b)
              \<and> max (MinCommitBatch c) (MinAggregatedSectors e) \<le> int (length (todo b)))
        \<and> (int (length (todo b)) < MinCommitBatch c
              \<or> int (length (todo b)) < MinAggregatedSectors e
            \<longrightarrow> (\<forall>m \<in> set ms. msg_method m = ProveCommitSector))))
    \<and> (todo b \<noteq> []
        \<and> (int (length (todo b)) < MinCommitBatch c
              \<or> int (length (todo b)) < MinAggregatedSectors e)
        \<and> \<not> (aboveMax \<and> int (length (todo b)) < MaxCommitBatch c)
        \<and> \<not> (aboveMin \<and> int (length (todo b)) < MinCommitBatch c)
        \<and> StateMinerInfo e = Inr mi \<and> ChainHead e = Inr (tok, ep)
        \<and> list_all (single_ok e mi tok) (todo b) \<longrightarrow>
      (\<exists>res b2 ms. maybeStartBatch e aboveMax aboveMin b = Inr ((res, None), b2)
        \<and> sent b2 = sent b @ ms \<and> map msg_kind ms = map single_kind (todo b)))"
proof (intro conjI impI)
  let ?n = "int (length (todo b))"
  let ?b1 = "b\<lparr>cfg_reads := cfg_reads b + 1\<rparr>"
  let ?P = "\<lambda>ms. sent b' = sent b @ ms
    \<and> (\<forall>m \<in> set ms. msg_method m = ProveCommitAggregate \<longrightarrow>
          1 \<le> length (SectorNumbers (msg_params m))
          \<and> int (length (SectorNumbers (msg_params m))) \<le> MaxCommitBatch c
          \<and> length (SectorNumbers (msg_params m)) \<le> length (todo b)
          \<and> set (SectorNumbers (msg_params m)) \<subseteq> fst ` set (todo b)
          \<and> max (MinCommitBatch c) (MinAggregatedSectors e) \<le> ?n)
    \<and> (?n < MinCommitBatch c \<or> ?n < MinAggregatedSectors e
        \<longrightarrow> (\<forall>m \<in> set ms. msg_method m = ProveCommitSector))"
  assume a: "maybeStartBatch e aboveMax aboveMin b = Inr (r, b')"
  consider (empty) "b' = b \<or> b' = ?b1"
    | (individual) "?n < MinCommitBatch c \<or> ?n < MinAggregatedSectors e"
        "finish_batch (processIndividually e ?b1) = Inr (r, b')"
    | (aggregate) "\<not> (?n < MinCommitBatch c \<or> ?n < MinAggregatedSectors e)"
        "finish_batch (processBatch e c ?b1) = Inr (r, b')"
    using assms a by (auto simp: maybeStartBatch_def Let_def split: if_splits)
  then show "\<exists>ms. ?P ms"
  proof cases
    case empty
    then have "?P []" by auto
    then show ?thesis by blast
  next
    case individual
    from individual(2) obtain res err b2
      where p: "processIndividually e ?b1 = Inr ((res, err), b2)" and so: "same_outside b2 b'"
      by (rule finish_batch_Inr)
    from processIndividually_sent [OF p] obtain ms
      where b2: "b2 = ?b1\<lparr>sent := sent ?b1 @ ms\<rparr>"
        and ms: "\<forall>m \<in> set ms. msg_method m = ProveCommitSector" by blast
    have "sent b' = sent b @ ms" using same_outside_sent [OF so] b2 by simp
    then have "?P ms" using ms individual(1) by auto
    then show ?thesis by blast
  next
    case aggregate
    from aggregate(2) obtain res err b2
      where p: "processBatch e c ?b1 = Inr ((res, err), b2)" and so: "same_outside b2 b'"
      by (rule finish_batch_Inr)
    from processBatch_size [OF p] obtain ms
      where s: "sent b2 = sent ?b1 @ ms"
        and sz: "\<forall>m \<in> set ms. msg_method m = ProveCommitAggregate
          \<and> 1 \<le> length (SectorNumbers (msg_params m))
          \<and> int (length (SectorNumbers (msg_params m))) \<le> MaxCommitBatch c
          \<and> length (SectorNumbers (msg_params m)) \<le> length (todo ?b1)
          \<and> set (SectorNumbers (msg_params m)) \<subseteq> fst ` set (todo ?b1)"
      by blast
    have "sent b' = sent b @ ms" using same_outside_sent [OF so] s by simp
    then have "?P ms" using sz aggregate(1) by auto
    then show ?thesis by blast
  qed
next
  let ?n = "int (length (todo b))"
  let ?b1 = "b\<lparr>cfg_reads := cfg_reads b + 1\<rparr>"
  assume h: "todo b \<noteq> []
        \<and> (?n < MinCommitBatch c \<or> ?n < MinAggregatedSectors e)
        \<and> \<not> (aboveMax \<and> ?n < MaxCommitBatch c)
        \<and> \<not> (aboveMin \<and> ?n < MinCommitBatch c)
        \<and> StateMinerInfo e = Inr mi \<and> ChainHead e = Inr (tok, ep)
        \<and> list_all (single_ok e mi tok) (todo b)"
  then have m: "maybeStartBatch e aboveMax aboveMin b = finish_batch (processIndividually e ?b1)"
    using assms by (auto simp: maybeStartBatch_def Let_def)
  from h have "list_all (single_ok e mi tok) (todo ?b1)" by simp
  from processIndividually_ok [OF _ _ this] h obtain res ms
    where p: "processIndividually e ?b1 = Inr ((res, None), ?b1\<lparr>sent := sent ?b1 @ ms\<rparr>)"
      and k: "map msg_kind ms = map single_kind (todo ?b1)" by blast
  let ?b2 = "notify_results None res (?b1\<lparr>sent := sent ?b1 @ ms\<rparr>)"
  have f: "maybeStartBatch e aboveMax aboveMin b = Inr ((res, None), ?b2)"
    using m p by (simp add: finish_batch_def)
  have "sent ?b2 = sent b @ ms"
    using same_outside_sent [OF notify_results_same, of None res "?b1\<lparr>sent := sent ?b1 @ ms\<rparr>"]
    by simp
  with f k show "\<exists>res b2 ms. maybeStartBatch e aboveMax aboveMin b = Inr ((res, None), b2)
        \<and> sent b2 = sent b @ ms \<and> map msg_kind ms = map single_kind (todo b)"
    by auto
qed

theorem aggregate_message_size_witness:
  "map msg_kind (sent (snd (projr (maybeStartBatch ex_env False False
       (ex_batcher [(5, 0), (6, 0), (7, 0), (8, 0)])))))
     = [(ProveCommitAggregate, ProveCommitAggregateParams [8, 7, 6, 5] [5, 6, 7, 8])]
   \<and> list_all (single_ok ex_env ''miner'' []) (todo (ex_batcher [(5, 0)]))
   \<and> map msg_kind (sent (snd (projr (maybeStartBatch ex_env False False (ex_batcher [(5, 0)])))))
     = map single_kind (todo (ex_batcher [(5, 0)]))"
proof -
  let ?b4 = "ex_batcher [(5, 0), (6, 0), (7, 0), (8, 0)]"
  let ?X = "maybeStartBatch ex_env False False ?b4"
  let ?b1 = "ex_batcher [(5, 0)]"
  have h4: "getConfig ex_env (cfg_reads ?b4) = Inr ex_cfg" by (simp add: ex_env_def)
  have h1: "getConfig ex_env (cfg_reads ?b1) = Inr ex_cfg" by (simp add: ex_env_def)
  have x: "?X = Inr (fst (projr ?X), snd (projr ?X))" by (simp add: ex_eval)
  have k4: "map msg_kind (sent (snd (projr ?X)))
      = [(ProveCommitAggregate, ProveCommitAggregateParams [8, 7, 6, 5] [5, 6, 7, 8])]"
    by (simp add: ex_eval msg_kind_def)
  from aggregate_message_size [OF h4, of False False "fst (projr ?X)" "snd (projr ?X)"] x
  obtain ms where "sent (snd (projr ?X)) = sent ?b4 @ ms"
    and "\<forall>m \<in> set ms. msg_method m = ProveCommitAggregate \<longrightarrow>
          1 \<le> length (SectorNumbers (msg_params m))
          \<and> int (length (SectorNumbers (msg_params m))) \<le> MaxCommitBatch ex_cfg"
    by blast
  have ok: "list_all (single_ok ex_env ''miner'' []) (todo ?b1)"
    by (simp add: single_ok_def ex_eval)
  have pre: "todo ?b1 \<noteq> []
      \<and> (int (length (todo ?b1)) < MinCommitBatch ex_cfg
            \<or> int (length (todo ?b1)) < MinAggregatedSectors ex_env)
      \<and> \<not> (False \<and> int (length (todo ?b1)) < MaxCommitBatch ex_cfg)
      \<and> \<not> (False \<and> int (length (todo ?b1)) < MinCommitBatch ex_cfg)
      \<and> StateMinerInfo ex_env = Inr ''miner'' \<and> ChainHead ex_env = Inr ([], 120)
      \<and> list_all (single_ok ex_env ''miner'' []) (todo ?b1)"
    using ok by (simp add: ex_eval)
  from aggregate_message_size [OF h1, of False False _ _ "''miner''" "[]" 120] pre
  obtain res b2 ms where r: "maybeStartBatch ex_env False False ?b1 = Inr ((res, None), b2)"
    and s: "sent b2 = sent ?b1 @ ms" and k: "map msg_kind ms = map single_kind (todo ?b1)"
    by blast
  have "sent ?b1 = []" by (simp add: ex_eval)
  with r s k have k1: "map msg_kind (sent (snd (projr (maybeStartBatch ex_env False False ?b1))))
      = map single_kind (todo ?b1)" by simp
  from k4 ok k1 show ?thesis by (intro conjI)
qed

text \<open>
  The claim as the specification states it fails in both sentences. With a maximum of
  \<open>3\<close>, a minimum of \<open>4\<close> and the protocol floor of \<open>4\<close>, a flush of four pending
  sectors sends an aggregate of three sectors. And with a minimum of \<open>2\<close> and one
  sector pending, the batch close that the timer starts sends nothing at all: it returns
  empty and leaves the sector pending.
\<close>

theorem aggregate_message_size_counterexample:
  "maybeStartBatch ex_small_env False False (ex_batcher [(5, 0), (6, 0), (7, 0), (8, 0)])
    = Inr (([ex_aggregate_res], None),
        (ex_batcher [(8, 0)])
          \<lparr>waiting := [(8, [3])], chans := 4, sent := [ex_aggregate_msg],
            proved := [ex_aggregate_call],
            delivered := [(0, ex_aggregate_res), (1, ex_aggregate_res), (2, ex_aggregate_res)],
            cfg_reads := 1\<rparr>)
   \<and> msg_method ex_aggregate_msg = ProveCommitAggregate
   \<and> length (SectorNumbers (msg_params ex_aggregate_msg)) = 3
   \<and> max (MinCommitBatch ex_small_cfg) (MinAggregatedSectors ex_small_env) = 4
   \<and> maybeStartBatch ex_env False True (ex_batcher [(5, 0)])
    = Inr (([], None), (ex_batcher [(5, 0)])\<lparr>cfg_reads := 1\<rparr>)
   \<and> sent ((ex_batcher [(5, 0)])\<lparr>cfg_reads := 1\<rparr>) = []
   \<and> int (length (todo (ex_batcher [(5, 0)]))) < MinCommitBatch ex_cfg"
  by (simp add: ex_eval ex_small_env_def ex_small_cfg_def ex_aggregate_call_def)

section \<open>Order of the infos and the proofs\<close>







section \<open>A failing collateral lookup\<close>

text \<open>
  Claim C1 describes the recording of a failed collateral lookup in
  \<^verbatim>\<open>FailedSectors\<close>. The code writes to the \<^verbatim>\<open>FailedSectors\<close> of a result that
  is the zero value, a nil map, so the write panics. On the example miner with sectors
  \<open>5\<close>, \<open>6\<close>, \<open>7\<close> and \<open>8\<close> pending, a maximum of \<open>4\<close> and a minimum of \<open>2\<close>,
  where the lookup fails for sector \<open>7\<close>, a flush takes the aggregate path and ends in
  that panic instead of returning a result.
\<close>

theorem processBatch_nil_map_panic:
  "maybeStartBatch ex_fail_env False False (ex_batcher [(5, 0), (6, 0), (7, 0), (8, 0)])
    = Inl NilMapAssignment"
  by (simp add: maybeStartBatch_def processBatch_def assemble_def select_sector_def
      getSectorCollateral_def set_failed_def finish_batch_def
      ex_fail_env_def ex_env_def ex_cfg_def ex_pci_def ex_batcher_def NewCommitBatcher_def
      collected_init_def Let_def)

text \<open>In the loop, with the nil map, a failing lookup is always the panic.\<close>

lemma collect_failure_panics:
  assumes "\<not> MaxCommitBatch c \<le> int (length (c_infos st))"
    and "getSectorCollateral e sid tok = Inl err"
    and "FailedSectors (c_res st) = None"
  shows "collect e c tok ((sid, p) # rest) st = Inl NilMapAssignment"
  using assms by (simp add: select_sector_def set_failed_def Let_def)

text \<open>The individual path writes to a nil map in the same way.\<close>

lemma processIndividually_nil_map_panic:
  "maybeStartBatch ex_fail_env False False (ex_batcher [(7, 0)]) = Inl NilMapAssignment"
  by (simp add: ex_eval ex_fail_env_def)

section \<open>Reading the configuration\<close>

lemma maybeStartBatch_cfg_reads:
  assumes "maybeStartBatch e aboveMax aboveMin b = Inr (r, b')"
  shows "cfg_reads b' = (if todo b = [] then cfg_reads b else cfg_reads b + 1)"
proof -
  let ?b1 = "b\<lparr>cfg_reads := cfg_reads b + 1\<rparr>"
  consider (empty) "todo b = []" "b' = b"
    | (gate) "todo b \<noteq> []" "b' = ?b1"
    | (individual) "todo b \<noteq> []" "finish_batch (processIndividually e ?b1) = Inr (r, b')"
    | (aggregate) c where "todo b \<noteq> []" "finish_batch (processBatch e c ?b1) = Inr (r, b')"
    using assms
    by (auto simp: maybeStartBatch_def Let_def split: if_splits sum.splits)
  then show ?thesis
  proof cases
    case empty
    then show ?thesis by simp
  next
    case gate
    then show ?thesis by simp
  next
    case individual
    from individual(2) obtain res err b2
      where p: "processIndividually e ?b1 = Inr ((res, err), b2)" and so: "same_outside b2 b'"
      by (rule finish_batch_Inr)
    from processIndividually_sent [OF p] obtain ms where "b2 = ?b1\<lparr>sent := sent ?b1 @ ms\<rparr>"
      by blast
    then show ?thesis using same_outside_cfg_reads [OF so] individual(1) by simp
  next
    case aggregate
    from aggregate(2) obtain res err b2
      where p: "processBatch e c ?b1 = Inr ((res, err), b2)" and so: "same_outside b2 b'"
      by (rule finish_batch_Inr)
    from processBatch_size [OF p] have "cfg_reads b2 = cfg_reads ?b1" by auto
    then show ?thesis using same_outside_cfg_reads [OF so] aggregate(1) by simp
  qed
qed

lemma run_batch_Inr:
  assumes "run_batch e x y s b = Inr (Some s', b')"
  obtains res err where "maybeStartBatch e x y b = Inr ((res, err), b')" and "cfg s' = cfg s"
    and "lastMsg s' = res"
  using assms by (auto simp: run_batch_def split: sum.splits prod.splits)

lemma batchWait_flushed: "batchWait now mw sl (b\<lparr>flushed := f\<rparr>) = batchWait now mw sl b"
  by (simp add: batchWait_def)

text \<open>
  Claim C3, as the code has it. \<^verbatim>\<open>run\<close> reads the configuration once before its
  loop and keeps that copy through every iteration. The timer of an iteration is
  \<^verbatim>\<open>batchWait\<close> of the wait and the slack of that copy: the timer case is taken only
  when \<^verbatim>\<open>batchWait\<close> of these two values gives a delay and that delay has passed.
  The batch close of an iteration is a call of \<^verbatim>\<open>maybeStartBatch\<close>, and
  \<^verbatim>\<open>maybeStartBatch\<close> reads the configuration again on every call that finds
  \<open>todo\<close> non-empty: its gate decides with the maximum and the minimum of that fresh
  read, not with those of the copy of \<^verbatim>\<open>run\<close>.
\<close>

theorem config_reads:
  "(run_start e b0 = Inr (s0, b1) \<longrightarrow>
      getConfig e (cfg_reads b0) = Inr (cfg s0) \<and> cfg_reads b1 = cfg_reads b0 + 1)
   \<and> (run_iter e now w s b = Some (Inr (Some s', b')) \<longrightarrow>
      cfg s' = cfg s
      \<and> cfg_reads b' = (if todo b = [] then cfg_reads b else cfg_reads b + 1)
      \<and> (\<exists>x y b2 res err. maybeStartBatch e x y b2 = Inr ((res, err), b')
            \<and> todo b2 = todo b \<and> cfg_reads b2 = cfg_reads b \<and> lastMsg s' = res))
   \<and> (run_iter e now (WakeTimer t) s b \<noteq> None \<longleftrightarrow>
      (\<exists>d. batchWait now (CommitBatchWait (cfg s)) (CommitBatchSlack (cfg s)) b = After d
           \<and> now + sint d \<le> t))
   \<and> (todo b = [] \<longrightarrow> maybeStartBatch e aboveMax aboveMin b = Inr (([], None), b))
   \<and> (todo b \<noteq> [] \<and> getConfig e (cfg_reads b) = Inr c \<longrightarrow>
      maybeStartBatch e aboveMax aboveMin b =
        (case gate_spec (MinAggregatedSectors e) c aboveMax aboveMin (length (todo b)) of
          GateEmpty \<Rightarrow> Inr (([], None), b\<lparr>cfg_reads := cfg_reads b + 1\<rparr>)
        | GateIndividual \<Rightarrow>
            finish_batch (processIndividually e (b\<lparr>cfg_reads := cfg_reads b + 1\<rparr>))
        | GateAggregate \<Rightarrow>
            finish_batch (processBatch e c (b\<lparr>cfg_reads := cfg_reads b + 1\<rparr>))))"
proof (intro conjI impI)
  assume "run_start e b0 = Inr (s0, b1)"
  then show "getConfig e (cfg_reads b0) = Inr (cfg s0)" and "cfg_reads b1 = cfg_reads b0 + 1"
    by (auto simp: run_start_def split: sum.splits)
next
  assume a: "run_iter e now w s b = Some (Inr (Some s', b'))"
  from a obtain x y s1 b2
    where rb: "run_batch e x y s1 b2 = Inr (Some s', b')"
      and s1: "cfg s1 = cfg s" and t: "todo b2 = todo b" and c: "cfg_reads b2 = cfg_reads b"
    by (cases w; cases "forceRes s")
      (auto simp: run_iter_def Let_def split: if_splits timer.splits)
  from rb obtain res err where m: "maybeStartBatch e x y b2 = Inr ((res, err), b')"
    and s': "cfg s' = cfg s1" and l: "lastMsg s' = res" by (rule run_batch_Inr)
  from s' s1 show "cfg s' = cfg s" by simp
  from maybeStartBatch_cfg_reads [OF m] t c
  show "cfg_reads b' = (if todo b = [] then cfg_reads b else cfg_reads b + 1)" by simp
  from m t c l
  show "\<exists>x y b2 res err. maybeStartBatch e x y b2 = Inr ((res, err), b')
            \<and> todo b2 = todo b \<and> cfg_reads b2 = cfg_reads b \<and> lastMsg s' = res"
    by blast
next
  show "run_iter e now (WakeTimer t) s b \<noteq> None \<longleftrightarrow>
      (\<exists>d. batchWait now (CommitBatchWait (cfg s)) (CommitBatchSlack (cfg s)) b = After d
           \<and> now + sint d \<le> t)"
    by (cases "forceRes s";
        cases "batchWait now (CommitBatchWait (cfg s)) (CommitBatchSlack (cfg s)) b")
      (simp_all add: run_iter_def Let_def batchWait_flushed)
next
  assume "todo b = []"
  then show "maybeStartBatch e aboveMax aboveMin b = Inr (([], None), b)"
    by (simp add: maybeStartBatch_def)
next
  assume "todo b \<noteq> [] \<and> getConfig e (cfg_reads b) = Inr c"
  then show "maybeStartBatch e aboveMax aboveMin b =
        (case gate_spec (MinAggregatedSectors e) c aboveMax aboveMin (length (todo b)) of
          GateEmpty \<Rightarrow> Inr (([], None), b\<lparr>cfg_reads := cfg_reads b + 1\<rparr>)
        | GateIndividual \<Rightarrow>
            finish_batch (processIndividually e (b\<lparr>cfg_reads := cfg_reads b + 1\<rparr>))
        | GateAggregate \<Rightarrow>
            finish_batch (processBatch e c (b\<lparr>cfg_reads := cfg_reads b + 1\<rparr>)))"
    by (auto simp: maybeStartBatch_def gate_spec_def Let_def)
qed

theorem config_reads_witness:
  "run_start ex_env NewCommitBatcher
     = Inr (\<lparr>forceRes = None, lastMsg = [], cfg = ex_cfg\<rparr>, NewCommitBatcher\<lparr>cfg_reads := 1\<rparr>)
   \<and> run_iter ex_env 0 (WakeTimer 30000000000) \<lparr>forceRes = None, lastMsg = [], cfg = ex_cfg\<rparr>
        ((ex_batcher [(5, 29400000005000)])\<lparr>cfg_reads := 1\<rparr>)
     = Some (Inr (Some \<lparr>forceRes = None, lastMsg = [], cfg = ex_cfg\<rparr>,
          (ex_batcher [(5, 29400000005000)])\<lparr>cfg_reads := 2\<rparr>))
   \<and> getConfig ex_env 0 = Inr ex_cfg
   \<and> cfg_reads (NewCommitBatcher\<lparr>cfg_reads := 1\<rparr>) = 1
   \<and> cfg_reads ((ex_batcher [(5, 29400000005000)])\<lparr>cfg_reads := 2\<rparr>) = 2
   \<and> batchWait 0 (CommitBatchWait ex_cfg) (CommitBatchSlack ex_cfg)
        ((ex_batcher [(5, 29400000005000)])\<lparr>cfg_reads := 1\<rparr>) = After 30000000000
   \<and> run_iter ex_env 0 (WakeTimer 29999999999) \<lparr>forceRes = None, lastMsg = [], cfg = ex_cfg\<rparr>
        ((ex_batcher [(5, 29400000005000)])\<lparr>cfg_reads := 1\<rparr>) = None
   \<and> gate_spec (MinAggregatedSectors ex_env) ex_cfg False True 1 = GateEmpty
   \<and> maybeStartBatch ex_env False True ((ex_batcher [(5, 29400000005000)])\<lparr>cfg_reads := 1\<rparr>)
     = Inr (([], None), (ex_batcher [(5, 29400000005000)])\<lparr>cfg_reads := 2\<rparr>)"
proof -
  let ?s0 = "\<lparr>forceRes = None, lastMsg = [], cfg = ex_cfg\<rparr>"
  let ?b = "(ex_batcher [(5, 29400000005000)])\<lparr>cfg_reads := 1\<rparr>"
  let ?b' = "(ex_batcher [(5, 29400000005000)])\<lparr>cfg_reads := 2\<rparr>"
  have h1: "run_start ex_env NewCommitBatcher = Inr (?s0, NewCommitBatcher\<lparr>cfg_reads := 1\<rparr>)"
    by (simp add: ex_eval)
  have bw: "batchWait 0 (CommitBatchWait ex_cfg) (CommitBatchSlack ex_cfg) ?b
      = After 30000000000"
    by (simp add: batchWait_def Time_Sub_def ex_cfg_def ex_batcher_def NewCommitBatcher_def
        cutoff_at_def)
  have h2: "run_iter ex_env 0 (WakeTimer 30000000000) ?s0 ?b = Some (Inr (Some ?s0, ?b'))"
    using bw by (simp add: run_iter_def run_batch_def maybeStartBatch_def Let_def
        ex_env_def ex_cfg_def ex_batcher_def NewCommitBatcher_def)
  have t: "todo ?b \<noteq> []" by (simp add: ex_eval)
  have g: "getConfig ex_env (cfg_reads ?b) = Inr ex_cfg" by (simp add: ex_env_def)
  have gs: "gate_spec (MinAggregatedSectors ex_env) ex_cfg False True 1 = GateEmpty"
    by (simp add: gate_spec_def ex_cfg_def)
  have len: "length (todo ?b) = 1" by (simp add: ex_eval)
  note inst = config_reads [where e = ex_env and ?b0.0 = NewCommitBatcher and ?s0.0 = ?s0
      and ?b1.0 = "NewCommitBatcher\<lparr>cfg_reads := 1\<rparr>" and now = 0
      and w = "WakeTimer 30000000000" and s = ?s0 and b = ?b and s' = ?s0 and b' = ?b'
      and t = 29999999999 and aboveMax = False and aboveMin = True and c = ex_cfg]
  from inst h1 have c1: "getConfig ex_env 0 = Inr ex_cfg"
    and c2: "cfg_reads (NewCommitBatcher\<lparr>cfg_reads := 1\<rparr>) = 1"
    by (simp_all add: NewCommitBatcher_def)
  from inst h2 t have c3: "cfg_reads ?b' = 2"
    by (simp add: ex_batcher_def NewCommitBatcher_def)
  from inst bw have c4: "run_iter ex_env 0 (WakeTimer 29999999999) ?s0 ?b = None"
    by simp
  from inst t g gs len
  have c5: "maybeStartBatch ex_env False True ?b = Inr (([], None), ?b')"
    by (simp add: ex_batcher_def NewCommitBatcher_def)
  from h1 h2 c1 c2 c3 bw c4 gs c5 show ?thesis by (intro conjI)
qed

text \<open>
  The claim as the specification states it fails. The scheduler starts with a maximum of
  \<open>4\<close>; the configuration source then changes the maximum to \<open>1\<close>. With one sector
  pending, a notification would leave the batch open under the configuration read at
  startup; the code reads the configuration a second time and sends the sector.
\<close>

theorem config_reads_counterexample:
  "run_start ex_reload_env NewCommitBatcher
     = Inr (\<lparr>forceRes = None, lastMsg = [], cfg = ex_cfg\<rparr>, NewCommitBatcher\<lparr>cfg_reads := 1\<rparr>)
   \<and> gate_spec (MinAggregatedSectors ex_reload_env) ex_cfg True False 1 = GateEmpty
   \<and> run_iter ex_reload_env 0 WakeNotify \<lparr>forceRes = None, lastMsg = [], cfg = ex_cfg\<rparr>
        ((ex_batcher [(5, 29400000005000)])\<lparr>notify := True, cfg_reads := 1\<rparr>)
     = Some (Inr (Some \<lparr>forceRes = None, lastMsg = [ex_single_res], cfg = ex_cfg\<rparr>,
          NewCommitBatcher
            \<lparr>chans := 1, sent := [ex_single_msg], delivered := [(0, ex_single_res)],
              cfg_reads := 2\<rparr>))"
  by (simp add: ex_eval ex_reload_env_def gate_spec_def)

section \<open>Stop\<close>

lemma Stop_close_closed: "stop b \<Longrightarrow> Stop_close b = Inl CloseOfClosedChannel"
  by (simp add: Stop_close_def)

lemma Stop_close_Inr: "Stop_close b = Inr b1 \<Longrightarrow> stop b1"
  by (auto simp: Stop_close_def split: if_splits)

lemma maybeStartBatch_stop:
  assumes "maybeStartBatch e aboveMax aboveMin b = Inr (r, b')"
  shows "stop b' = stop b"
proof -
  let ?b1 = "b\<lparr>cfg_reads := cfg_reads b + 1\<rparr>"
  consider (gate) "b' = b \<or> b' = ?b1"
    | (individual) "finish_batch (processIndividually e ?b1) = Inr (r, b')"
    | (aggregate) c where "finish_batch (processBatch e c ?b1) = Inr (r, b')"
    using assms
    by (auto simp: maybeStartBatch_def Let_def split: if_splits sum.splits)
  then show ?thesis
  proof cases
    case gate
    then show ?thesis by auto
  next
    case individual
    then obtain res err b2
      where p: "processIndividually e ?b1 = Inr ((res, err), b2)" and so: "same_outside b2 b'"
      by (rule finish_batch_Inr)
    from processIndividually_sent [OF p] obtain ms where "b2 = ?b1\<lparr>sent := sent ?b1 @ ms\<rparr>"
      by blast
    then show ?thesis using same_outside_stop [OF so] by simp
  next
    case aggregate
    then obtain res err b2
      where p: "processBatch e c ?b1 = Inr ((res, err), b2)" and so: "same_outside b2 b'"
      by (rule finish_batch_Inr)
    from processBatch_size [OF p] have "stop b2 = stop ?b1" by auto
    then show ?thesis using same_outside_stop [OF so] by simp
  qed
qed

lemma run_iter_keeps_stop:
  assumes "run_iter e now w s b = Some (Inr (s', b'))" and "stop b"
  shows "stop b'"
proof (cases "s' = None")
  case True
  then show ?thesis using assms
    by (cases w; cases "forceRes s")
      (auto simp: run_iter_def run_batch_def Let_def
        split: if_splits timer.splits sum.splits prod.splits)
next
  case False
  then obtain s1 where s': "s' = Some s1" by auto
  from assms(1) s' obtain x y s0 b1
    where rb: "run_batch e x y s0 b1 = Inr (Some s1, b')" and st: "stop b1 = stop b"
    by (cases w; cases "forceRes s")
      (auto simp: run_iter_def Let_def split: if_splits timer.splits)
  from rb obtain res err where "maybeStartBatch e x y b1 = Inr ((res, err), b')"
    by (rule run_batch_Inr)
  from maybeStartBatch_stop [OF this] st assms(2) show ?thesis by simp
qed

lemma AddCommit_keeps_stop:
  assumes "AddCommit_enqueue e now s inp b = Inr (Inr (ch, b'))"
  shows "stop b' = stop b"
  using assms
  by (auto simp: AddCommit_enqueue_def Let_def split: sum.splits prod.splits option.splits)

text \<open>No operation of the batcher reopens the stop channel.\<close>

lemma reaches_stop: "reaches b b' \<Longrightarrow> stop b \<Longrightarrow> stop b'"
proof (induction rule: reaches.induct)
  case (reaches_refl b)
  then show ?case .
next
  case (reaches_run b b1 e now w s s' b2)
  from run_iter_keeps_stop [OF reaches_run.hyps(2)] reaches_run.IH reaches_run.prems
  show ?case by simp
next
  case (reaches_add b b1 e now si inp ch b2)
  from AddCommit_keeps_stop [OF reaches_add.hyps(2)] reaches_add.IH reaches_add.prems
  show ?case by simp
qed

text \<open>
  Claim C2, as the code has it. \<^verbatim>\<open>Stop\<close> is not idempotent. Let a first
  \<^verbatim>\<open>Stop\<close> close the stop channel and return \<^verbatim>\<open>nil\<close>, which its
  \<^verbatim>\<open>select\<close> can do only when the scheduler has closed \<^verbatim>\<open>b.stopped\<close>, and let
  the scheduler loop and \<^verbatim>\<open>AddCommit\<close> calls run in any way between the close and
  the return and after the return. Then a second \<^verbatim>\<open>Stop\<close> does not return
  \<^verbatim>\<open>nil\<close>, whatever its context: its \<^verbatim>\<open>close(b.stop)\<close> panics on the closed
  channel before it reaches the \<^verbatim>\<open>select\<close>.
\<close>

theorem Stop_twice:
  assumes "Stop_close b = Inr b1"
    and "reaches b1 b2"
    and "None \<in> set (Stop_wait ctx b2)"
    and "reaches b2 b3"
  shows "stopped b2 \<and> Stop_close b3 = Inl CloseOfClosedChannel"
proof -
  from assms(1) have "stop b1" by (rule Stop_close_Inr)
  with assms(2) have "stop b2" by (rule reaches_stop)
  with assms(4) have "stop b3" by (rule reaches_stop)
  then have "Stop_close b3 = Inl CloseOfClosedChannel" by (rule Stop_close_closed)
  moreover from assms(3) have "stopped b2"
    by (auto simp: Stop_wait_def split: if_splits option.splits)
  ultimately show ?thesis by simp
qed

theorem Stop_twice_witness:
  "stopped (NewCommitBatcher\<lparr>stop := True, stopped := True\<rparr>)
   \<and> Stop_close (NewCommitBatcher\<lparr>stop := True, stopped := True\<rparr>) = Inl CloseOfClosedChannel"
proof -
  let ?b1 = "NewCommitBatcher\<lparr>stop := True\<rparr>"
  let ?b2 = "NewCommitBatcher\<lparr>stop := True, stopped := True\<rparr>"
  have h1: "Stop_close NewCommitBatcher = Inr ?b1"
    by (simp add: Stop_close_def NewCommitBatcher_def)
  have it: "run_iter ex_env 0 WakeStop \<lparr>forceRes = None, lastMsg = [], cfg = ex_cfg\<rparr> ?b1
     = Some (Inr (None, ?b2))"
    by (simp add: run_iter_def NewCommitBatcher_def)
  have h2: "reaches ?b1 ?b2" by (rule reaches_run [OF reaches_refl it])
  have h3: "None \<in> set (Stop_wait None ?b2)" by (simp add: Stop_wait_def)
  have h4: "reaches ?b2 ?b2" by (rule reaches_refl)
  show ?thesis by (rule Stop_twice [OF h1 h2 h3 h4])
qed

text \<open>
  The claim as the specification states it fails on a new batcher: the first
  \<^verbatim>\<open>Stop\<close> closes the channel, the scheduler acknowledges, the \<^verbatim>\<open>select\<close> of
  the first \<^verbatim>\<open>Stop\<close>, whose context is not done, can only return \<^verbatim>\<open>nil\<close>, and
  the second \<^verbatim>\<open>Stop\<close> panics.
\<close>

theorem Stop_twice_counterexample:
  "Stop_close NewCommitBatcher = Inr (NewCommitBatcher\<lparr>stop := True\<rparr>)
  \<and> run_iter ex_env 0 WakeStop \<lparr>forceRes = None, lastMsg = [], cfg = ex_cfg\<rparr>
       (NewCommitBatcher\<lparr>stop := True\<rparr>)
     = Some (Inr (None, NewCommitBatcher\<lparr>stop := True, stopped := True\<rparr>))
  \<and> Stop_wait None (NewCommitBatcher\<lparr>stop := True, stopped := True\<rparr>) = [None]
  \<and> Stop_close (NewCommitBatcher\<lparr>stop := True, stopped := True\<rparr>) = Inl CloseOfClosedChannel"
  by (simp add: Stop_close_def Stop_wait_def run_iter_def NewCommitBatcher_def)

end
